theory Spec2Isabelle
  imports Main "HOL-Library.Word"
begin

section \<open>Subscription engine: rpc/v8/subscriptions.go\<close>

subsection \<open>Data\<close>

text \<open>
  A \<open>felt.Felt\<close> is a field element; only its identity matters here. Block numbers
  and subscription ids are Go \<open>uint64\<close>, so subtraction wraps around.
\<close>

type_synonym felt = nat
type_synonym uint64 = "64 word"

text \<open>
  The \<open>*jsonrpc.Error\<close> values the handlers return. The named ones are the package
  variables of \<open>rpccore\<close> and the code \<open>jsonrpc.MethodNotFound\<close>; \<open>ErrInternal\<close>
  carries the data attached by \<open>CloneWithData\<close>; \<open>ErrOther\<close> stands for every other
  error a collaborator may hand back.
\<close>

datatype rpc_error =
    MethodNotFound
  | ErrInternal string
  | ErrTooManyKeysInFilter
  | ErrTooManyBlocksBack
  | ErrTooManyAddressesInFilter
  | ErrInvalidSubscriptionID
  | ErrTxnHashNotFound
  | ErrOther int

text \<open>The struct \<open>SubscriptionBlockID\<close>; \<open>Hash\<close> is a pointer, \<open>None\<close> when nil.\<close>

record SubscriptionBlockID =
  Latest :: bool
  Hash :: "felt option"
  Number :: uint64

definition IsLatest :: "SubscriptionBlockID \<Rightarrow> bool" where
  "IsLatest b = Latest b"

definition IsPending :: "SubscriptionBlockID \<Rightarrow> bool" where
  "IsPending b = False"

definition GetHash :: "SubscriptionBlockID \<Rightarrow> felt option" where
  "GetHash b = Hash b"

definition GetNumber :: "SubscriptionBlockID \<Rightarrow> uint64" where
  "GetNumber b = Number b"

text \<open>
  Of \<open>core.Header\<close> the subscription code reads the block number only; the hash is
  kept so that two headers of one height can differ.
\<close>

record Header =
  hdr_Number :: uint64
  hdr_Hash :: felt

text \<open>A connection handle is the identity of a physical connection.\<close>

type_synonym Conn = nat

text \<open>
  Modelled from the spec: \<open>Conn.Equal\<close> of package jsonrpc is not part of the sources
  at hand; "Equal returns true iff two handles refer to the same physical connection".
\<close>

definition Equal :: "Conn \<Rightarrow> Conn \<Rightarrow> bool" where
  "Equal c w = (c = w)"

text \<open>
  Of the request context the handlers read the connection handle, absent on a transport
  without connections.
\<close>

type_synonym Context = "Conn option"

text \<open>
  Modelled from the spec: \<open>jsonrpc.ConnFromContext\<close> is not part of the sources at
  hand; a subscribe handler "requires a connection handle from context, else returns
  method not found".
\<close>

definition ConnFromContext :: "Context \<Rightarrow> Conn option" where
  "ConnFromContext ctx = ctx"

text \<open>
  The struct \<open>subscription\<close> as the code uses it: the connection, the cancel function
  of its context (here the flag that \<open>cancel\<close> sets) and the wait group (here the number
  of tasks started on it and still running).
\<close>

record subscription =
  conn :: Conn
  cancelled :: bool
  wg :: nat

text \<open>
  The part of \<open>Handler\<close> that the subscribe and unsubscribe calls touch: the registry
  \<open>subscriptions\<close> (a \<open>sync.Map\<close> from id to subscription) and the injectable id
  generator, given by the ids it hands out on successive calls and the number of calls
  made so far.
\<close>

record Handler =
  subscriptions :: "uint64 \<rightharpoonup> subscription"
  idgen_ids :: "nat \<Rightarrow> uint64"
  idgen_calls :: nat

definition idgen :: "Handler \<Rightarrow> uint64 \<times> Handler" where
  "idgen h = (idgen_ids h (idgen_calls h), h\<lparr>idgen_calls := Suc (idgen_calls h)\<rparr>)"

definition Store :: "uint64 \<Rightarrow> subscription \<Rightarrow> Handler \<Rightarrow> Handler" where
  "Store i sub h = h\<lparr>subscriptions := (subscriptions h)(i \<mapsto> sub)\<rparr>"

definition Delete :: "uint64 \<Rightarrow> Handler \<Rightarrow> Handler" where
  "Delete i h = h\<lparr>subscriptions := (subscriptions h)(i := None)\<rparr>"

text \<open>
  The blockchain reader as one call sees it: \<open>HeadsHeader\<close> gives the head or fails with
  a message, and \<open>blockHeaderByID\<close> (a method of \<open>Handler\<close> outside these sources)
  resolves a block id to a header or to an error.
\<close>

record bcReader =
  HeadsHeader :: "string + Header"
  blockHeaderByID :: "SubscriptionBlockID \<Rightarrow> rpc_error + Header"

subsection \<open>resolveBlockRange\<close>

text \<open>
  The block id arrives as a possibly nil pointer (\<open>utils.IsNil\<close>). The constant
  \<open>rpccore.MaxBlocksBack\<close> is a parameter. The comparison is the code's, on \<open>uint64\<close>.
\<close>

definition resolveBlockRange ::
  "uint64 \<Rightarrow> bcReader \<Rightarrow> SubscriptionBlockID option \<Rightarrow> rpc_error + (Header \<times> Header)" where
  "resolveBlockRange MaxBlocksBack bc blockID =
     (case HeadsHeader bc of
        Inl err \<Rightarrow> Inl (ErrInternal err)
      | Inr latestHeader \<Rightarrow>
          (case blockID of
             None \<Rightarrow> Inr (latestHeader, latestHeader)
           | Some b \<Rightarrow>
               if IsLatest b then Inr (latestHeader, latestHeader)
               else (case blockHeaderByID bc b of
                       Inl rpcErr \<Rightarrow> Inl rpcErr
                     | Inr startHeader \<Rightarrow>
                         if hdr_Number latestHeader \<ge> MaxBlocksBack
                            \<and> hdr_Number startHeader \<le> hdr_Number latestHeader - MaxBlocksBack
                         then Inl ErrTooManyBlocksBack
                         else Inr (startHeader, latestHeader))))"

subsection \<open>The synchronous part of the subscribe calls\<close>

text \<open>
  Every subscribe call ends the same way: a fresh id, a subscription for the calling
  connection stored under it, and one task started on its wait group. What that task
  does afterwards runs beside the caller and is not part of the call's result; the feed
  handles the call attaches live outside the registry and are left out.
\<close>

definition register :: "Conn \<Rightarrow> Handler \<Rightarrow> uint64 \<times> Handler" where
  "register w h =
     (let (i, h1) = idgen h;
          sub = \<lparr>conn = w, cancelled = False, wg = 0\<rparr>;
          h2 = Store i sub h1;
          h3 = Store i (sub\<lparr>wg := Suc (wg sub)\<rparr>) h2
      in (i, h3))"

definition SubscribeNewHeads ::
  "uint64 \<Rightarrow> bcReader \<Rightarrow> Context \<Rightarrow> SubscriptionBlockID option \<Rightarrow> Handler
     \<Rightarrow> (rpc_error + uint64) \<times> Handler" where
  "SubscribeNewHeads MaxBlocksBack bc ctx blockID h =
     (case ConnFromContext ctx of
        None \<Rightarrow> (Inl MethodNotFound, h)
      | Some w \<Rightarrow>
          (case resolveBlockRange MaxBlocksBack bc blockID of
             Inl rpcErr \<Rightarrow> (Inl rpcErr, h)
           | Inr (startHeader, latestHeader) \<Rightarrow>
               (let (i, h') = register w h in (Inr i, h'))))"

text \<open>
  \<open>lenKeys\<close> starts at the number of inner lists and grows by the length of each.
  \<open>rpccore.MaxEventFilterKeys\<close> is a parameter.
\<close>

definition lenKeys :: "felt list list \<Rightarrow> nat" where
  "lenKeys keys = fold (\<lambda>k n. n + length k) keys (length keys)"

definition SubscribeEvents ::
  "nat \<Rightarrow> uint64 \<Rightarrow> bcReader \<Rightarrow> Context \<Rightarrow> felt option \<Rightarrow> felt list list
     \<Rightarrow> SubscriptionBlockID option \<Rightarrow> Handler \<Rightarrow> (rpc_error + uint64) \<times> Handler" where
  "SubscribeEvents MaxEventFilterKeys MaxBlocksBack bc ctx fromAddr keys blockID h =
     (case ConnFromContext ctx of
        None \<Rightarrow> (Inl MethodNotFound, h)
      | Some w \<Rightarrow>
          if lenKeys keys > MaxEventFilterKeys then (Inl ErrTooManyKeysInFilter, h)
          else (case resolveBlockRange MaxBlocksBack bc blockID of
                  Inl rpcErr \<Rightarrow> (Inl rpcErr, h)
                | Inr (requestedHeader, headHeader) \<Rightarrow>
                    (let (i, h') = register w h in (Inr i, h'))))"

subsection \<open>Unsubscribe\<close>

text \<open>
  \<open>subs.cancel()\<close> sets the flag of the subscription's context; \<open>subs.wg.Wait()\<close> returns
  when no task of the subscription is running any more; then the entry goes.
\<close>

definition cancel :: "uint64 \<Rightarrow> Handler \<Rightarrow> Handler" where
  "cancel i h =
     (case subscriptions h i of
        None \<Rightarrow> h
      | Some sub \<Rightarrow> Store i (sub\<lparr>cancelled := True\<rparr>) h)"

definition wg_Wait :: "uint64 \<Rightarrow> Handler \<Rightarrow> Handler" where
  "wg_Wait i h =
     (case subscriptions h i of
        None \<Rightarrow> h
      | Some sub \<Rightarrow> Store i (sub\<lparr>wg := 0\<rparr>) h)"

definition Unsubscribe :: "Context \<Rightarrow> uint64 \<Rightarrow> Handler \<Rightarrow> (rpc_error + bool) \<times> Handler" where
  "Unsubscribe ctx i h =
     (case ConnFromContext ctx of
        None \<Rightarrow> (Inl MethodNotFound, h)
      | Some w \<Rightarrow>
          (case subscriptions h i of
             None \<Rightarrow> (Inl ErrInvalidSubscriptionID, h)
           | Some subs \<Rightarrow>
               if \<not> Equal (conn subs) w then (Inl ErrInvalidSubscriptionID, h)
               else (Inr True, Delete i (wg_Wait i (cancel i h)))))"

subsection \<open>SubscriptionBlockID.UnmarshalJSON\<close>

text \<open>
  A Go \<open>error\<close> is modelled by its message. The three uses of \<open>json.Unmarshal\<close>
  (package encoding/json) are parameters: into a fresh \<open>map[string]json.RawMessage\<close>,
  into a \<open>*felt.Felt\<close> and into a \<open>*uint64\<close>; the last two get the value the
  target holds before the call and give back the value it holds after it.
\<close>

record json_Unmarshal =
  Unmarshal_map :: "string \<Rightarrow> string + (string \<rightharpoonup> string)"
  Unmarshal_felt :: "string \<Rightarrow> felt \<Rightarrow> string option \<times> felt"
  Unmarshal_uint64 :: "string \<Rightarrow> uint64 \<Rightarrow> string option \<times> uint64"

text \<open>The bytes of a JSON string literal without escapes: the text between double quotes.\<close>

definition quoted :: "string \<Rightarrow> string" where
  "quoted s = CHR 0x22 # s @ [CHR 0x22]"

text \<open>
  The receiver is mutated in place, so the result is the error (if any) together with
  the receiver as the call leaves it. \<open>new(felt.Felt)\<close> is the zero element.
\<close>

definition UnmarshalJSON ::
  "json_Unmarshal \<Rightarrow> SubscriptionBlockID \<Rightarrow> string \<Rightarrow> string option \<times> SubscriptionBlockID" where
  "UnmarshalJSON js b data =
     (if data = quoted ''latest'' then (None, b\<lparr>Latest := True\<rparr>)
      else (case Unmarshal_map js data of
              Inl err \<Rightarrow> (Some err, b)
            | Inr jsonObject \<Rightarrow>
                (case jsonObject ''block_hash'' of
                   Some hash \<Rightarrow>
                     (let (err, f) = Unmarshal_felt js hash 0
                      in (err, b\<lparr>Hash := Some f\<rparr>))
                 | None \<Rightarrow>
                     (case jsonObject ''block_number'' of
                        Some number \<Rightarrow>
                          (let (err, n) = Unmarshal_uint64 js number (Number b)
                           in (err, b\<lparr>Number := n\<rparr>))
                      | None \<Rightarrow> (Some ''cannot unmarshal block id'', b)))))"

subsection \<open>sendEvents\<close>

text \<open>
  \<open>blockchain.FilteredEvent\<close>: the embedded \<open>*core.Event\<close> and the pointers to block
  number, block hash and transaction hash are \<open>None\<close> when nil.
\<close>

record Event =
  From :: felt
  Keys :: "felt list"
  Data :: "felt list"

record FilteredEvent =
  fe_Event :: "Event option"
  BlockNumber :: "uint64 option"
  BlockHash :: "felt option"
  TransactionHash :: "felt option"
  EventIndex :: int

datatype SentEvent = SentEvent felt int

record EmittedEvent =
  em_Event :: Event
  em_BlockNumber :: "uint64 option"
  em_BlockHash :: "felt option"
  em_TransactionHash :: "felt option"

text \<open>
  The notification envelope of \<open>sendResponse\<close>: \<open>Params\<close> is the map with the two keys
  \<open>subscription_id\<close> and \<open>result\<close>. A message is kept as the value that
  \<open>json.Marshal\<close> turns into bytes; marshalling these payloads does not fail.
\<close>

record 'r SubscriptionResponse =
  Version :: string
  Method :: string
  subscription_id :: uint64
  result :: 'r

text \<open>
  What a task of a subscription sees of the outside: whether its context is done each
  time it looks (\<open>ctx_done\<close>, one entry per look, none left meaning not done), whether
  each \<open>Write\<close> on the connection fails (\<open>write_errs\<close>, one entry per call, none left
  meaning success), and the messages the connection has accepted so far.
\<close>

record 'r task_io =
  ctx_done :: "bool list"
  write_errs :: "bool list"
  written :: "'r SubscriptionResponse list"

datatype send_error = ContextCanceled | WriteFailed | NilPointerPanic

definition ctx_Done :: "'r task_io \<Rightarrow> bool \<times> 'r task_io" where
  "ctx_Done io =
     (case ctx_done io of
        [] \<Rightarrow> (False, io)
      | d # ds \<Rightarrow> (d, io\<lparr>ctx_done := ds\<rparr>))"

definition Write :: "'r SubscriptionResponse \<Rightarrow> 'r task_io \<Rightarrow> send_error option \<times> 'r task_io" where
  "Write resp io =
     (case write_errs io of
        [] \<Rightarrow> (None, io\<lparr>written := written io @ [resp]\<rparr>)
      | e # es \<Rightarrow>
          if e then (Some WriteFailed, io\<lparr>write_errs := es\<rparr>)
          else (None, io\<lparr>write_errs := es, written := written io @ [resp]\<rparr>))"

definition sendResponse ::
  "string \<Rightarrow> uint64 \<Rightarrow> 'r \<Rightarrow> 'r task_io \<Rightarrow> send_error option \<times> 'r task_io" where
  "sendResponse method i r io =
     Write \<lparr>Version = ''2.0'', Method = method, subscription_id = i, result = r\<rparr> io"

text \<open>
  \<open>sync.ReorgBlockRange\<close> and the \<open>ReorgEvent\<close> sent for it. The \<open>result\<close> of a
  notification of an events subscription is an emitted event or a reorg event.
\<close>

record ReorgBlockRange =
  StartBlockHash :: "felt option"
  StartBlockNum :: uint64
  EndBlockHash :: "felt option"
  EndBlockNum :: uint64

record ReorgEvent =
  re_StartBlockHash :: "felt option"
  re_StartBlockNum :: uint64
  re_EndBlockHash :: "felt option"
  re_EndBlockNum :: uint64

datatype result_any = Emitted EmittedEvent | Reorg ReorgEvent

definition sendReorg ::
  "result_any task_io \<Rightarrow> ReorgBlockRange \<Rightarrow> uint64 \<Rightarrow> send_error option \<times> result_any task_io" where
  "sendReorg io reorg i =
     sendResponse ''starknet_subscriptionReorg'' i
       (Reorg \<lparr>re_StartBlockHash = StartBlockHash reorg, re_StartBlockNum = StartBlockNum reorg,
               re_EndBlockHash = EndBlockHash reorg, re_EndBlockNum = EndBlockNum reorg\<rparr>) io"

text \<open>
  One turn of the loop of \<open>sendEvents\<close>. \<open>eventsPreviouslySent\<close> is a Go map used as a
  set, nil (\<open>None\<close>) in the first replay. The result is the error that ends the loop
  (if any), the outside, and the map as the turn leaves it.
\<close>

definition sendEvent ::
  "result_any task_io \<Rightarrow> FilteredEvent \<Rightarrow> SentEvent set option \<Rightarrow> uint64
     \<Rightarrow> send_error option \<times> result_any task_io \<times> SentEvent set option" where
  "sendEvent io event eventsPreviouslySent i =
     (case ctx_Done io of
        (True, io1) \<Rightarrow> (Some ContextCanceled, io1, eventsPreviouslySent)
      | (False, io1) \<Rightarrow>
          (let emit = (\<lambda>m.
                 case fe_Event event of
                   None \<Rightarrow> (Some NilPointerPanic, io1, m)
                 | Some ev \<Rightarrow>
                     (let emittedEvent =
                            \<lparr>em_Event = \<lparr>From = From ev, Keys = Keys ev, Data = Data ev\<rparr>,
                             em_BlockNumber = BlockNumber event,
                             em_BlockHash = BlockHash event,
                             em_TransactionHash = TransactionHash event\<rparr>;
                          (err, io2) = sendResponse ''starknet_subscriptionEvents'' i
                                         (Emitted emittedEvent) io1
                      in (err, io2, m)))
           in (case eventsPreviouslySent of
                 None \<Rightarrow> emit None
               | Some sent \<Rightarrow>
                   (case TransactionHash event of
                      None \<Rightarrow> (Some NilPointerPanic, io1, eventsPreviouslySent)
                    | Some th \<Rightarrow>
                        (let sentEvent = SentEvent th (EventIndex event)
                         in if sentEvent \<in> sent then (None, io1, eventsPreviouslySent)
                            else if BlockHash event = None
                                 then emit (Some (insert sentEvent sent))
                                 else emit (Some (sent - {sentEvent})))))))"

fun sendEvents ::
  "result_any task_io \<Rightarrow> FilteredEvent list \<Rightarrow> SentEvent set option \<Rightarrow> uint64
     \<Rightarrow> send_error option \<times> result_any task_io \<times> SentEvent set option" where
  "sendEvents io [] eventsPreviouslySent i = (None, io, eventsPreviouslySent)"
| "sendEvents io (event # events) eventsPreviouslySent i =
     (case sendEvent io event eventsPreviouslySent i of
        (Some err, io', m') \<Rightarrow> (Some err, io', m')
      | (None, io', m') \<Rightarrow> sendEvents io' events m' i)"

subsection \<open>processEvents and the task of an events subscription\<close>

text \<open>
  What the blockchain's event filter answers in one replay. \<open>bcReader.EventFilter\<close> may
  fail, then \<open>setEventFilterRange\<close> may fail; after that every call of \<open>filter.Events\<close>
  fails, or gives a page of events with no continuation token, or gives a page with a
  token and so the answer to the next call. A value of \<open>events_pages\<close> is finite: the
  filter runs out of pages.
\<close>

datatype events_pages =
    EventsErr
  | LastPage "FilteredEvent list"
  | MorePages "FilteredEvent list" events_pages

datatype event_filter =
    EventFilterErr
  | SetRangeErr
  | Pages events_pages

text \<open>
  The chain at one moment: the filter it gives for an address, keys and a block range.
\<close>

type_synonym EventFilter = "felt option \<Rightarrow> felt list list \<Rightarrow> uint64 \<Rightarrow> uint64 \<Rightarrow> event_filter"

text \<open>
  \<open>processEvents\<close> returns nothing; every error is logged and ends the replay. The
  flag in the result says whether the replay ended in a nil dereference, which ends the
  task as well. \<open>sendPages\<close> is the part from the first \<open>filter.Events\<close> on.
\<close>

fun sendPages ::
  "result_any task_io \<Rightarrow> events_pages \<Rightarrow> SentEvent set option \<Rightarrow> uint64
     \<Rightarrow> bool \<times> result_any task_io \<times> SentEvent set option" where
  "sendPages io EventsErr eventsPreviouslySent i = (False, io, eventsPreviouslySent)"
| "sendPages io (LastPage filteredEvents) eventsPreviouslySent i =
     (let (err, io', m') = sendEvents io filteredEvents eventsPreviouslySent i
      in (err = Some NilPointerPanic, io', m'))"
| "sendPages io (MorePages filteredEvents cToken) eventsPreviouslySent i =
     (let (err, io', m') = sendEvents io filteredEvents eventsPreviouslySent i
      in if err \<noteq> None then (err = Some NilPointerPanic, io', m')
         else sendPages io' cToken m' i)"

definition processEvents ::
  "EventFilter \<Rightarrow> result_any task_io \<Rightarrow> uint64 \<Rightarrow> uint64 \<Rightarrow> uint64 \<Rightarrow> felt option
     \<Rightarrow> felt list list \<Rightarrow> SentEvent set option
     \<Rightarrow> bool \<times> result_any task_io \<times> SentEvent set option" where
  "processEvents bc io i from to fromAddr keys eventsPreviouslySent =
     (case bc fromAddr keys from to of
        EventFilterErr \<Rightarrow> (False, io, eventsPreviouslySent)
      | SetRangeErr \<Rightarrow> (False, io, eventsPreviouslySent)
      | Pages pages \<Rightarrow> sendPages io pages eventsPreviouslySent i)"

text \<open>
  The task started by \<open>SubscribeEvents\<close> loops over a \<open>select\<close> on its context and three
  feeds. The feeds are given by what the \<open>select\<close> takes, turn after turn: the context
  being done, a reorg, a new head, or a pending block, the last two together with the
  chain as it is when the replay runs. The result is the outside and the map once the
  given turns are handled; with no turn left the task is waiting in the \<open>select\<close>.
\<close>

datatype select_case =
    ctx_Done_case
  | reorg_case ReorgBlockRange
  | head_case Header EventFilter
  | pending_case EventFilter

fun events_loop ::
  "result_any task_io \<Rightarrow> select_case list \<Rightarrow> uint64 \<Rightarrow> SentEvent set option \<Rightarrow> felt option
     \<Rightarrow> felt list list \<Rightarrow> uint64 \<Rightarrow> result_any task_io \<times> SentEvent set option" where
  "events_loop io [] nextBlock eventsPreviouslySent fromAddr keys i = (io, eventsPreviouslySent)"
| "events_loop io (ctx_Done_case # turns) nextBlock eventsPreviouslySent fromAddr keys i =
     (io, eventsPreviouslySent)"
| "events_loop io (reorg_case reorg # turns) nextBlock eventsPreviouslySent fromAddr keys i =
     (case sendReorg io reorg i of
        (Some err, io') \<Rightarrow> (io', eventsPreviouslySent)
      | (None, io') \<Rightarrow>
          events_loop io' turns (StartBlockNum reorg) eventsPreviouslySent fromAddr keys i)"
| "events_loop io (head_case head bc # turns) nextBlock eventsPreviouslySent fromAddr keys i =
     (let (panicked, io', m') =
            processEvents bc io i nextBlock (hdr_Number head) fromAddr keys eventsPreviouslySent
      in if panicked then (io', m')
         else events_loop io' turns (hdr_Number head + 1) m' fromAddr keys i)"
| "events_loop io (pending_case bc # turns) nextBlock eventsPreviouslySent fromAddr keys i =
     (let (panicked, io', m') =
            processEvents bc io i nextBlock nextBlock fromAddr keys eventsPreviouslySent
      in if panicked then (io', m')
         else events_loop io' turns nextBlock m' fromAddr keys i)"

text \<open>
  The whole task: the replay of the requested range on the chain \<open>bc\<close> of that moment,
  without a map, then the loop from the block after the head, with a fresh map.
\<close>

definition SubscribeEvents_task ::
  "EventFilter \<Rightarrow> result_any task_io \<Rightarrow> select_case list \<Rightarrow> Header \<Rightarrow> Header \<Rightarrow> felt option
     \<Rightarrow> felt list list \<Rightarrow> uint64 \<Rightarrow> result_any task_io" where
  "SubscribeEvents_task bc io turns requestedHeader headHeader fromAddr keys i =
     (let (panicked, io1, m) =
            processEvents bc io i (hdr_Number requestedHeader) (hdr_Number headHeader)
              fromAddr keys None
      in if panicked then io1
         else fst (events_loop io1 turns (hdr_Number headHeader + 1) (Some {}) fromAddr keys i))"

subsection \<open>SubscribeTransactionStatus\<close>

text \<open>
  The wait for an unknown transaction is a \<open>select\<close> over two timer channels. The
  channels are given by the order in which they deliver: one entry per turn of the loop,
  naming the channel the \<open>select\<close> takes. With no entry left the \<open>select\<close> never returns,
  which is the result \<open>None\<close>. \<open>TransactionStatus\<close>, a method of \<open>Handler\<close> outside
  these sources, is a parameter; its first argument is the number of lookups made before,
  since the answer for one hash changes with time.
\<close>

datatype timer_chan = timeout_C | ticker_C

fun txNotFoundLoop ::
  "(nat \<Rightarrow> rpc_error + 'st) \<Rightarrow> nat \<Rightarrow> timer_chan list \<Rightarrow> rpc_error
     \<Rightarrow> (rpc_error + 'st) option" where
  "txNotFoundLoop status n [] rpcErr = None"
| "txNotFoundLoop status n (timeout_C # chans) rpcErr = Some (Inl rpcErr)"
| "txNotFoundLoop status n (ticker_C # chans) rpcErr =
     (case status n of
        Inl rpcErr' \<Rightarrow>
          if rpcErr' \<noteq> ErrTxnHashNotFound then Some (Inl rpcErr')
          else txNotFoundLoop status (Suc n) chans rpcErr'
      | Inr curStatus \<Rightarrow> Some (Inr curStatus))"

definition SubscribeTransactionStatus ::
  "(nat \<Rightarrow> felt \<Rightarrow> rpc_error + 'st) \<Rightarrow> timer_chan list \<Rightarrow> Context \<Rightarrow> felt \<Rightarrow> Handler
     \<Rightarrow> ((rpc_error + uint64) \<times> Handler) option" where
  "SubscribeTransactionStatus TransactionStatus chans ctx txHash h =
     (case ConnFromContext ctx of
        None \<Rightarrow> Some (Inl MethodNotFound, h)
      | Some w \<Rightarrow>
          (let found =
                 (case TransactionStatus 0 txHash of
                    Inl rpcErr \<Rightarrow>
                      if rpcErr \<noteq> ErrTxnHashNotFound then Some (Inl rpcErr)
                      else txNotFoundLoop (\<lambda>n. TransactionStatus n txHash) 1 chans rpcErr
                  | Inr curStatus \<Rightarrow> Some (Inr curStatus))
           in (case found of
                 None \<Rightarrow> None
               | Some (Inl rpcErr) \<Rightarrow> Some (Inl rpcErr, h)
               | Some (Inr curStatus) \<Rightarrow>
                   (let (i, h') = register w h in Some (Inr i, h')))))"

section \<open>Request middleware: package jsonrpc\<close>

text \<open>
  Of \<open>request\<close> and \<open>response\<close> the middleware reads the method name and the error code.
  A handler runs in a state \<open>'s\<close> (everything it may change) and returns the pair
  \<open>(*response, error)\<close>, either of which may be nil.
\<close>

record request =
  req_Method :: string
  req_Params :: string
  req_ID :: string

record jsonrpc_Error =
  Code :: int
  Message :: string

record response =
  resp_Result :: string
  resp_Error :: "jsonrpc_Error option"
  resp_ID :: string

type_synonym ('ctx, 's) requestHandler =
  "'ctx \<Rightarrow> request \<Rightarrow> 's \<Rightarrow> (response option \<times> string option) \<times> 's"

type_synonym ('ctx, 's) requestMiddleware =
  "'ctx \<Rightarrow> request \<Rightarrow> ('ctx, 's) requestHandler \<Rightarrow> 's \<Rightarrow> (response option \<times> string option) \<times> 's"

text \<open>
  The server holds the handler of record, nil until the first middleware is registered,
  and its own terminal dispatcher \<open>handleRequest\<close>.
\<close>

record ('ctx, 's) Server =
  handler :: "('ctx, 's) requestHandler option"
  handleRequest :: "('ctx, 's) requestHandler"

definition WithRequestMiddleware ::
  "('ctx, 's) requestMiddleware \<Rightarrow> ('ctx, 's) Server \<Rightarrow> ('ctx, 's) Server" where
  "WithRequestMiddleware middleware s =
     (let handler' = (case handler s of None \<Rightarrow> handleRequest s | Some g \<Rightarrow> g)
      in s\<lparr>handler := Some (\<lambda>ctx req. middleware ctx req handler')\<rparr>)"

text \<open>The interface \<open>requestReporter\<close>: three methods acting on the state.\<close>

record 's requestReporter =
  ReportRequest :: "string \<Rightarrow> 's \<Rightarrow> 's"
  ReportRequestError :: "string \<Rightarrow> int \<Rightarrow> 's \<Rightarrow> 's"
  ReportRequestDuration :: "string \<Rightarrow> nat \<Rightarrow> 's \<Rightarrow> 's"

text \<open>\<open>now\<close> reads the wall clock of a state (\<open>time.Now\<close>, and again in \<open>time.Since\<close>).\<close>

definition MetricsReporterMiddleware ::
  "('s \<Rightarrow> nat) \<Rightarrow> 's requestReporter \<Rightarrow> ('ctx, 's) requestMiddleware" where
  "MetricsReporterMiddleware now reporter =
     (\<lambda>ctx req next s.
        let start = now s;
            ((resp, err), s1) = next ctx req s;
            duration = now s1 - start;
            s2 = ReportRequest reporter (req_Method req) s1;
            s3 = ReportRequestDuration reporter (req_Method req) duration s2;
            s4 = (case resp of
                    None \<Rightarrow> s3
                  | Some r \<Rightarrow>
                      (case resp_Error r of
                         None \<Rightarrow> s3
                       | Some e \<Rightarrow> ReportRequestError reporter (req_Method req) (Code e) s3))
        in ((resp, err), s4))"

subsection \<open>The reporter of server\_middleware\_test.go\<close>

record testRequestReporter =
  trr_method :: string
  trr_duration :: nat
  trr_count :: int
  trr_errCode :: int

record test_state =
  clock :: nat
  the_reporter :: testRequestReporter

definition testReporter :: "test_state requestReporter" where
  "testReporter =
     \<lparr>ReportRequest = (\<lambda>m s. s\<lparr>the_reporter :=
          (the_reporter s)\<lparr>trr_method := m, trr_count := trr_count (the_reporter s) + 1\<rparr>\<rparr>),
      ReportRequestError = (\<lambda>m c s. s\<lparr>the_reporter := (the_reporter s)\<lparr>trr_errCode := c\<rparr>\<rparr>),
      ReportRequestDuration = (\<lambda>m d s. s\<lparr>the_reporter := (the_reporter s)\<lparr>trr_duration := d\<rparr>\<rparr>)\<rparr>"

section \<open>HTTP adapter: package jsonrpc\<close>

definition MaxRequestBodySize :: nat where
  "MaxRequestBodySize = 10 * 1024 * 1024"

record http_Request =
  http_Method :: string
  URL_Path :: string
  Body :: string

text \<open>
  \<open>http.MaxBytesReader\<close> (package net/http): the reader gives the first \<open>n\<close> bytes of
  the body and then fails if the body has more.
\<close>

record body_reader =
  bytes :: string
  too_large :: bool

definition MaxBytesReader :: "string \<Rightarrow> nat \<Rightarrow> body_reader" where
  "MaxBytesReader body n = \<lparr>bytes = take n body, too_large = (n < length body)\<rparr>"

text \<open>The calls made on the \<open>http.ResponseWriter\<close>, in order.\<close>

datatype writer_call =
    WriteHeader nat
  | Header_Set string string
  | Write_bytes string

text \<open>
  The adapter's own state is the counter \<open>reporter.requests\<close> and the state \<open>'s\<close> of the
  server core. \<open>Server.HandleReader\<close> is a parameter: it gets the reader and returns the
  pair \<open>(resp, err)\<close>.
\<close>

record 's HTTP =
  requests :: nat
  rpc :: 's

definition ServeHTTP ::
  "(body_reader \<Rightarrow> 's \<Rightarrow> (string option \<times> string option) \<times> 's) \<Rightarrow> http_Request \<Rightarrow> 's HTTP
     \<Rightarrow> writer_call list \<times> 's HTTP" where
  "ServeHTTP HandleReader req h =
     (if http_Method req = ''GET'' then
        (let status = (if URL_Path req = ''/'' then 200 else 404)
         in ([WriteHeader status], h))
      else if http_Method req \<noteq> ''POST'' then ([WriteHeader 405], h)
      else
        (let body = MaxBytesReader (Body req) MaxRequestBodySize;
             h1 = h\<lparr>requests := Suc (requests h)\<rparr>;
             ((resp, err), core) = HandleReader body (rpc h1);
             h2 = h1\<lparr>rpc := core\<rparr>;
             w1 = [Header_Set ''Content-Type'' ''application/json''];
             w2 = (if err \<noteq> None then w1 @ [WriteHeader 500] else w1);
             w3 = (case resp of None \<Rightarrow> w2 | Some r \<Rightarrow> w2 @ [Write_bytes r])
         in (w3, h2)))"

section \<open>Notions used in the statements\<close>

subsection \<open>The events given to a subscription task\<close>

text \<open>
  The events of one replay, in the order \<open>processEvents\<close> gets them: all pages up to
  the end or to the first failing call of the filter.
\<close>

fun pages_events :: "events_pages \<Rightarrow> FilteredEvent list" where
  "pages_events EventsErr = []"
| "pages_events (LastPage evs) = evs"
| "pages_events (MorePages evs pages) = evs @ pages_events pages"

fun filter_events :: "event_filter \<Rightarrow> FilteredEvent list" where
  "filter_events EventFilterErr = []"
| "filter_events SetRangeErr = []"
| "filter_events (Pages pages) = pages_events pages"

text \<open>
  The events the loop of the task is given over its turns, in order: at a new head the
  replay from \<open>nextBlock\<close> to the head, at a pending block the replay of \<open>nextBlock\<close>
  alone; a reorg moves \<open>nextBlock\<close> back to its start.
\<close>

fun loop_events ::
  "select_case list \<Rightarrow> uint64 \<Rightarrow> felt option \<Rightarrow> felt list list \<Rightarrow> FilteredEvent list" where
  "loop_events [] nextBlock fromAddr keys = []"
| "loop_events (ctx_Done_case # turns) nextBlock fromAddr keys = []"
| "loop_events (reorg_case reorg # turns) nextBlock fromAddr keys =
     loop_events turns (StartBlockNum reorg) fromAddr keys"
| "loop_events (head_case head bc # turns) nextBlock fromAddr keys =
     filter_events (bc fromAddr keys nextBlock (hdr_Number head))
     @ loop_events turns (hdr_Number head + 1) fromAddr keys"
| "loop_events (pending_case bc # turns) nextBlock fromAddr keys =
     filter_events (bc fromAddr keys nextBlock nextBlock)
     @ loop_events turns nextBlock fromAddr keys"

text \<open>The event notifications among the messages a connection has accepted.\<close>

definition event_notifications :: "result_any task_io \<Rightarrow> result_any SubscriptionResponse list" where
  "event_notifications io =
     filter (\<lambda>r. Method r = ''starknet_subscriptionEvents'') (written io)"

text \<open>An event the filter built in full, and an outside that never cancels nor fails.\<close>

definition well_formed :: "FilteredEvent \<Rightarrow> bool" where
  "well_formed e = (TransactionHash e \<noteq> None \<and> fe_Event e \<noteq> None)"

definition no_faults :: "'r task_io \<Rightarrow> bool" where
  "no_faults io = (True \<notin> set (ctx_done io) \<and> True \<notin> set (write_errs io))"

text \<open>The pair \<open>(transaction_hash, event_index)\<close> that identifies an event.\<close>

definition sentEventOf :: "FilteredEvent \<Rightarrow> SentEvent option" where
  "sentEventOf e = map_option (\<lambda>th. SentEvent th (EventIndex e)) (TransactionHash e)"

text \<open>The notification that carries an event to subscription \<open>i\<close>.\<close>

definition notification :: "uint64 \<Rightarrow> FilteredEvent \<Rightarrow> result_any SubscriptionResponse option" where
  "notification i e =
     (case fe_Event e of
        None \<Rightarrow> None
      | Some ev \<Rightarrow>
          Some \<lparr>Version = ''2.0'', Method = ''starknet_subscriptionEvents'', subscription_id = i,
                result = Emitted \<lparr>em_Event = ev, em_BlockNumber = BlockNumber e,
                                  em_BlockHash = BlockHash e,
                                  em_TransactionHash = TransactionHash e\<rparr>\<rparr>)"

text \<open>
  Between two states of the outside, the event notifications that came are those of
  the events \<open>es\<close>, in order, and no cancellation or write failure lies ahead.
\<close>

definition emits :: "result_any task_io \<Rightarrow> result_any task_io \<Rightarrow> uint64 \<Rightarrow> FilteredEvent list \<Rightarrow> bool" where
  "emits io io' i es =
     (no_faults io'
      \<and> map Some (event_notifications io')
          = map Some (event_notifications io) @ map (notification i) es)"

text \<open>
  The SentEvent policy in the words of the specification, on a stream of events and
  the set of pairs recorded so far: an event whose pair is present is skipped; otherwise
  the event is emitted, its pair being recorded when the block hash is nil and removed
  when it is not. \<open>SentEvent_policy_emits\<close> is the events emitted, in order,
  \<open>SentEvent_policy_sent\<close> the set at the end.
\<close>

fun SentEvent_policy_emits :: "SentEvent set \<Rightarrow> FilteredEvent list \<Rightarrow> FilteredEvent list" where
  "SentEvent_policy_emits sent [] = []"
| "SentEvent_policy_emits sent (e # es) =
     (case sentEventOf e of
        None \<Rightarrow> SentEvent_policy_emits sent es
      | Some k \<Rightarrow>
          if k \<in> sent then SentEvent_policy_emits sent es
          else if BlockHash e = None then e # SentEvent_policy_emits (insert k sent) es
          else e # SentEvent_policy_emits (sent - {k}) es)"

fun SentEvent_policy_sent :: "SentEvent set \<Rightarrow> FilteredEvent list \<Rightarrow> SentEvent set" where
  "SentEvent_policy_sent sent [] = sent"
| "SentEvent_policy_sent sent (e # es) =
     (case sentEventOf e of
        None \<Rightarrow> SentEvent_policy_sent sent es
      | Some k \<Rightarrow>
          if k \<in> sent then SentEvent_policy_sent sent es
          else if BlockHash e = None then SentEvent_policy_sent (insert k sent) es
          else SentEvent_policy_sent (sent - {k}) es)"

text \<open>
  The events a task is due to emit: all of the first replay, and of the events given to
  the loop those the policy lets through, starting from no pair recorded.
\<close>

definition SubscribeEvents_emits ::
  "EventFilter \<Rightarrow> select_case list \<Rightarrow> Header \<Rightarrow> Header \<Rightarrow> felt option \<Rightarrow> felt list list
     \<Rightarrow> FilteredEvent list" where
  "SubscribeEvents_emits bc turns requestedHeader headHeader fromAddr keys =
     filter_events (bc fromAddr keys (hdr_Number requestedHeader) (hdr_Number headHeader))
     @ SentEvent_policy_emits {} (loop_events turns (hdr_Number headHeader + 1) fromAddr keys)"

subsection \<open>Concrete inputs\<close>

text \<open>A chain whose head is block 2000 and that knows every block by its number.\<close>

definition chain_2000 :: bcReader where
  "chain_2000 =
     \<lparr>HeadsHeader = Inr \<lparr>hdr_Number = 2000, hdr_Hash = 0\<rparr>,
      blockHeaderByID = (\<lambda>b. Inr \<lparr>hdr_Number = Number b, hdr_Hash = 0\<rparr>)\<rparr>"

text \<open>A handler without subscriptions whose generator counts from 1.\<close>

definition handler_0 :: Handler where
  "handler_0 = \<lparr>subscriptions = Map.empty, idgen_ids = (\<lambda>n. word_of_nat n + 1), idgen_calls = 0\<rparr>"

text \<open>A handler with subscription 7, owned by connection 1, one task running.\<close>

definition handler_7 :: Handler where
  "handler_7 =
     \<lparr>subscriptions = [7 \<mapsto> \<lparr>conn = 1, cancelled = False, wg = 1\<rparr>],
      idgen_ids = (\<lambda>n. word_of_nat n + 8), idgen_calls = 0\<rparr>"

text \<open>One event, as the pending block delivers it and as the confirmed block does.\<close>

definition ev_pending :: FilteredEvent where
  "ev_pending =
     \<lparr>fe_Event = Some \<lparr>From = 1, Keys = [2], Data = [3]\<rparr>, BlockNumber = Some 10,
      BlockHash = None, TransactionHash = Some 77, EventIndex = 0\<rparr>"

definition ev_confirmed :: FilteredEvent where
  "ev_confirmed =
     \<lparr>fe_Event = Some \<lparr>From = 1, Keys = [2], Data = [3]\<rparr>, BlockNumber = Some 10,
      BlockHash = Some 99, TransactionHash = Some 77, EventIndex = 0\<rparr>"

definition io_0 :: "result_any task_io" where
  "io_0 = \<lparr>ctx_done = [], write_errs = [], written = []\<rparr>"

text \<open>
  A chain on which block 10 is pending and holds the event, and the same chain once
  block 10 is confirmed; no other block has events.
\<close>

definition chain_pending :: EventFilter where
  "chain_pending fromAddr keys from to =
     (if from \<le> 10 \<and> 10 \<le> to then Pages (LastPage [ev_pending]) else Pages (LastPage []))"

definition chain_confirmed :: EventFilter where
  "chain_confirmed fromAddr keys from to =
     (if from \<le> 10 \<and> 10 \<le> to then Pages (LastPage [ev_confirmed]) else Pages (LastPage []))"

text \<open>
  The turns of a task subscribed at head 9: the pending block twice, then the new head
  10.
\<close>

definition turns_0 :: "select_case list" where
  "turns_0 =
     [pending_case chain_pending, pending_case chain_pending,
      head_case \<lparr>hdr_Number = 10, hdr_Hash = 99\<rparr> chain_confirmed]"

text \<open>A feeder that never knows the transaction.\<close>

definition status_never :: "nat \<Rightarrow> felt \<Rightarrow> rpc_error + unit" where
  "status_never n txHash = Inl ErrTxnHashNotFound"

text \<open>
  The server of the middleware test: its dispatcher answers the request and lets one
  unit of time pass; the reporter starts empty.
\<close>

definition test_server :: "(unit, test_state) Server" where
  "test_server =
     \<lparr>handler = None,
      handleRequest = (\<lambda>ctx req s.
        ((Some \<lparr>resp_Result = ''19'', resp_Error = None, resp_ID = req_ID req\<rparr>, None),
         s\<lparr>clock := clock s + 1\<rparr>))\<rparr>"

definition test_request :: request where
  "test_request = \<lparr>req_Method = ''subtract'', req_Params = ''[42, 23]'', req_ID = ''4''\<rparr>"

definition test_state_0 :: test_state where
  "test_state_0 =
     \<lparr>clock = 0,
      the_reporter = \<lparr>trr_method = [], trr_duration = 0, trr_count = 0, trr_errCode = 0\<rparr>\<rparr>"

text \<open>
  Middlewares that leave their name in the state before they call the next handler,
  and a dispatcher that leaves the name \<open>terminal\<close>.
\<close>

definition tagging :: "string \<Rightarrow> (unit, string list) requestMiddleware" where
  "tagging name = (\<lambda>ctx req next s. next ctx req (s @ [name]))"

definition tag_server :: "(unit, string list) Server" where
  "tag_server = \<lparr>handler = None, handleRequest = (\<lambda>ctx req s. ((None, None), s @ [''terminal'']))\<rparr>"

text \<open>A server core that fails on an oversized body and still answers.\<close>

definition core_0 :: "body_reader \<Rightarrow> nat \<Rightarrow> (string option \<times> string option) \<times> nat" where
  "core_0 body n =
     (if too_large body then ((Some ''error'', Some ''http: request body too large''), Suc n)
      else ((Some (bytes body), None), Suc n))"

text \<open>A decoder that knows three inputs.\<close>

definition js_0 :: json_Unmarshal where
  "js_0 =
     \<lparr>Unmarshal_map = (\<lambda>data.
        if data = ''{}'' then Inr Map.empty
        else if data = ''{n}'' then Inr [''block_number'' \<mapsto> ''5'']
        else Inl ''json: cannot unmarshal''),
      Unmarshal_felt = (\<lambda>data f. (None, 5)),
      Unmarshal_uint64 = (\<lambda>data n. (None, 5))\<rparr>"

definition blockID_0 :: SubscriptionBlockID where
  "blockID_0 = \<lparr>Latest = False, Hash = None, Number = 0\<rparr>"

section \<open>Key validation and block range of the subscribe calls\<close>

lemma fold_lenKeys: "fold (\<lambda>k n. n + length k) keys a = a + sum_list (map length keys)"
  by (induction keys arbitrary: a) auto

lemma lenKeys_eq: "lenKeys keys = length keys + sum_list (map length keys)"
  by (simp add: lenKeys_def fold_lenKeys)

lemma resolveBlockRange_not_keys:
  assumes "\<forall>b. blockHeaderByID bc b \<noteq> Inl ErrTooManyKeysInFilter"
  shows "resolveBlockRange B bc blockID \<noteq> Inl ErrTooManyKeysInFilter"
  using assms
  by (auto simp: resolveBlockRange_def split: sum.splits option.splits)

text \<open>
  Claim C1, as the code has it. For a call of \<open>SubscribeEvents\<close> that carries a
  connection, on a chain whose header lookup never answers with the too-many-keys error:
  the call returns the too-many-keys error if and only if the number of inner lists plus
  the number of entries of all inner lists exceeds \<open>MaxEventFilterKeys\<close>; otherwise the
  key validation passes and the call goes on to resolve the block range.
\<close>

theorem SubscribeEvents_key_validation:
  assumes "ConnFromContext ctx = Some w"
      and "\<forall>b. blockHeaderByID bc b \<noteq> Inl ErrTooManyKeysInFilter"
  shows "(fst (SubscribeEvents M B bc ctx fromAddr keys blockID h) = Inl ErrTooManyKeysInFilter
            \<longleftrightarrow> M < length keys + sum_list (map length keys))
       \<and> (\<not> M < length keys + sum_list (map length keys) \<longrightarrow>
            SubscribeEvents M B bc ctx fromAddr keys blockID h =
              (case resolveBlockRange B bc blockID of
                 Inl rpcErr \<Rightarrow> (Inl rpcErr, h)
               | Inr (requestedHeader, headHeader) \<Rightarrow>
                   (let (i, h') = register w h in (Inr i, h'))))"
  using assms(1) resolveBlockRange_not_keys[OF assms(2), of B blockID]
  by (auto simp: SubscribeEvents_def lenKeys_eq split: sum.splits prod.splits)

text \<open>
  The theorem at work: with a limit of 2, two inner lists of one key each count 4 and
  are refused.
\<close>

theorem SubscribeEvents_key_validation_witness:
  "ConnFromContext (Some 1) = Some 1
   \<and> (\<forall>b. blockHeaderByID chain_2000 b \<noteq> Inl ErrTooManyKeysInFilter)
   \<and> fst (SubscribeEvents 2 1024 chain_2000 (Some 1) None [[5], [6]] None handler_0)
       = Inl ErrTooManyKeysInFilter"
proof -
  have c: "ConnFromContext (Some 1) = Some (1::nat)"
    by (simp add: ConnFromContext_def)
  have b: "\<forall>b. blockHeaderByID chain_2000 b \<noteq> Inl ErrTooManyKeysInFilter"
    by (simp add: chain_2000_def)
  show ?thesis
    using SubscribeEvents_key_validation[OF c b, of 2 1024 None "[[5], [6]]" None handler_0] c b
    by simp
qed

text \<open>
  Claim C1 as stated fails: with \<open>MaxEventFilterKeys = 1024\<close>, a filter of 513 inner
  lists of one key each has 513 entries, which does not exceed the limit, yet the call
  returns the too-many-keys error, since \<open>lenKeys\<close> is 513 + 513.
\<close>

theorem SubscribeEvents_key_sum_counterexample:
  "fst (SubscribeEvents 1024 1024 chain_2000 (Some 1) None (replicate 513 [7]) None handler_0)
     = Inl ErrTooManyKeysInFilter
   \<and> \<not> (1024 < sum_list (map length (replicate 513 [7::felt])))"
  by (simp add: SubscribeEvents_def ConnFromContext_def lenKeys_eq sum_list_replicate)

lemma uint64_blocks_back:
  fixes S H B :: uint64
  shows "(B \<le> H \<and> S \<le> H - B) \<longleftrightarrow> unat S + unat B \<le> unat H"
  by (auto simp: word_le_nat_alt unat_sub)

lemma resolveBlockRange_resolved:
  assumes "HeadsHeader bc = Inr latest"
      and "blockHeaderByID bc b = Inr start"
      and "\<not> IsLatest b"
  shows "resolveBlockRange B bc (Some b) =
           (if unat (hdr_Number start) + unat B \<le> unat (hdr_Number latest)
            then Inl ErrTooManyBlocksBack else Inr (start, latest))"
  using assms by (simp add: resolveBlockRange_def uint64_blocks_back)

text \<open>
  Claim C2, as the code has it. For a call of \<open>SubscribeNewHeads\<close>, or of
  \<open>SubscribeEvents\<close> whose keys pass the validation, that carries a connection and a
  block id other than latest, where the head has number \<open>H\<close> and the block id resolves
  to a header of number \<open>S\<close>: the call is rejected with \<open>too many blocks back\<close> if and
  only if \<open>S + MaxBlocksBack \<le> H\<close>, that is \<open>S \<le> H - MaxBlocksBack\<close> (a start exactly
  \<open>MaxBlocksBack\<close> behind the head is rejected as well); and a rejected call leaves the
  handler as it was: no id is generated and no subscription is stored. A call without a
  block id, or with the id latest, starts at the head and is never rejected this way.
\<close>

theorem too_many_blocks_back:
  assumes "ConnFromContext ctx = Some w"
      and "HeadsHeader bc = Inr latest"
      and "blockHeaderByID bc b = Inr start"
      and "\<not> IsLatest b"
  shows "(fst (SubscribeNewHeads B bc ctx (Some b) h) = Inl ErrTooManyBlocksBack
            \<longleftrightarrow> unat (hdr_Number start) + unat B \<le> unat (hdr_Number latest))
       \<and> (fst (SubscribeNewHeads B bc ctx (Some b) h) = Inl ErrTooManyBlocksBack
            \<longrightarrow> snd (SubscribeNewHeads B bc ctx (Some b) h) = h)
       \<and> (lenKeys keys \<le> M \<longrightarrow>
            (fst (SubscribeEvents M B bc ctx fromAddr keys (Some b) h) = Inl ErrTooManyBlocksBack
               \<longleftrightarrow> unat (hdr_Number start) + unat B \<le> unat (hdr_Number latest))
          \<and> (fst (SubscribeEvents M B bc ctx fromAddr keys (Some b) h) = Inl ErrTooManyBlocksBack
               \<longrightarrow> snd (SubscribeEvents M B bc ctx fromAddr keys (Some b) h) = h))
       \<and> (blockID = None \<or> (\<exists>b'. blockID = Some b' \<and> IsLatest b') \<longrightarrow>
            fst (SubscribeNewHeads B bc ctx blockID h) \<noteq> Inl ErrTooManyBlocksBack
          \<and> fst (SubscribeEvents M B bc ctx fromAddr keys blockID h) \<noteq> Inl ErrTooManyBlocksBack)"
proof -
  note r = resolveBlockRange_resolved[OF assms(2-4), of B]
  have resolved: "(fst (SubscribeNewHeads B bc ctx (Some b) h) = Inl ErrTooManyBlocksBack
            \<longleftrightarrow> unat (hdr_Number start) + unat B \<le> unat (hdr_Number latest))
       \<and> (fst (SubscribeNewHeads B bc ctx (Some b) h) = Inl ErrTooManyBlocksBack
            \<longrightarrow> snd (SubscribeNewHeads B bc ctx (Some b) h) = h)
       \<and> (lenKeys keys \<le> M \<longrightarrow>
            (fst (SubscribeEvents M B bc ctx fromAddr keys (Some b) h) = Inl ErrTooManyBlocksBack
               \<longleftrightarrow> unat (hdr_Number start) + unat B \<le> unat (hdr_Number latest))
          \<and> (fst (SubscribeEvents M B bc ctx fromAddr keys (Some b) h) = Inl ErrTooManyBlocksBack
               \<longrightarrow> snd (SubscribeEvents M B bc ctx fromAddr keys (Some b) h) = h))"
    using assms(1)
    by (simp add: SubscribeNewHeads_def SubscribeEvents_def r split: prod.splits)
  have head: "blockID = None \<or> (\<exists>b'. blockID = Some b' \<and> IsLatest b') \<Longrightarrow>
               resolveBlockRange B bc blockID = Inr (latest, latest)"
    using assms(2) by (auto simp: resolveBlockRange_def)
  have at_head: "blockID = None \<or> (\<exists>b'. blockID = Some b' \<and> IsLatest b') \<Longrightarrow>
            fst (SubscribeNewHeads B bc ctx blockID h) \<noteq> Inl ErrTooManyBlocksBack
          \<and> fst (SubscribeEvents M B bc ctx fromAddr keys blockID h) \<noteq> Inl ErrTooManyBlocksBack"
    using assms(1) head
    by (simp add: SubscribeNewHeads_def SubscribeEvents_def split: prod.splits)
  show ?thesis
    using resolved at_head by blast
qed

text \<open>
  The theorem at work: head 2000, limit 1024. Block 900 is rejected and nothing is
  stored; block 977 is accepted.
\<close>

theorem too_many_blocks_back_witness:
  "ConnFromContext (Some 1) = Some 1
   \<and> HeadsHeader chain_2000 = Inr \<lparr>hdr_Number = 2000, hdr_Hash = 0\<rparr>
   \<and> blockHeaderByID chain_2000 (blockID_0\<lparr>Number := 900\<rparr>) = Inr \<lparr>hdr_Number = 900, hdr_Hash = 0\<rparr>
   \<and> \<not> IsLatest (blockID_0\<lparr>Number := 900\<rparr>)
   \<and> lenKeys [[5]] \<le> 1024
   \<and> SubscribeNewHeads 1024 chain_2000 (Some 1) (Some (blockID_0\<lparr>Number := 900\<rparr>)) handler_0
       = (Inl ErrTooManyBlocksBack, handler_0)
   \<and> SubscribeEvents 1024 1024 chain_2000 (Some 1) None [[5]] (Some (blockID_0\<lparr>Number := 900\<rparr>)) handler_0
       = (Inl ErrTooManyBlocksBack, handler_0)"
proof -
  have c: "ConnFromContext (Some 1) = Some (1::nat)"
    by (simp add: ConnFromContext_def)
  have hd: "HeadsHeader chain_2000 = Inr \<lparr>hdr_Number = 2000, hdr_Hash = 0\<rparr>"
    by (simp add: chain_2000_def)
  have st: "blockHeaderByID chain_2000 (blockID_0\<lparr>Number := 900\<rparr>) = Inr \<lparr>hdr_Number = 900, hdr_Hash = 0\<rparr>"
    by (simp add: chain_2000_def blockID_0_def)
  have nl: "\<not> IsLatest (blockID_0\<lparr>Number := 900\<rparr>)"
    by (simp add: IsLatest_def blockID_0_def)
  have k: "lenKeys [[5]] \<le> 1024"
    by (simp add: lenKeys_def)
  show ?thesis
    using too_many_blocks_back[OF c hd st nl, of 1024 handler_0 "[[5]]" 1024 None None]
      c hd st nl k
    by (simp add: prod_eq_iff)
qed

text \<open>
  Claim C2 as stated fails at the boundary: with \<open>MaxBlocksBack = 1024\<close> and head 2000,
  block 976 is not older than \<open>2000 - 1024\<close>, yet the call is rejected.
\<close>

theorem too_many_blocks_back_boundary_counterexample:
  "fst (SubscribeNewHeads 1024 chain_2000 (Some 1)
          (Some \<lparr>Latest = False, Hash = None, Number = 976\<rparr>) handler_0) = Inl ErrTooManyBlocksBack
   \<and> \<not> ((976::int) < 2000 - 1024)"
  by (simp add: SubscribeNewHeads_def ConnFromContext_def resolveBlockRange_def chain_2000_def
        IsLatest_def)

section \<open>Unsubscribe\<close>

text \<open>
  What a call by the owner does, seen from the caller: the answer is \<open>true\<close> and the
  entry is gone from the registry.
\<close>

lemma Unsubscribe_by_owner:
  assumes "ConnFromContext ctx = Some w"
      and "subscriptions h s = Some sub"
      and "Equal (conn sub) w"
  shows "Unsubscribe ctx s h = (Inr True, h\<lparr>subscriptions := (subscriptions h)(s := None)\<rparr>)"
  using assms by (simp add: Unsubscribe_def Delete_def wg_Wait_def cancel_def Store_def)

text \<open>
  Claim C3. When the caller's connection is not the one that owns subscription \<open>s\<close>, or
  when \<open>s\<close> is not in the registry, \<open>Unsubscribe\<close> returns \<open>invalid subscription id\<close> and
  changes nothing: every entry of the registry, that of \<open>s\<close> included, is as before, so
  its context is not cancelled and it is not deleted.
\<close>

theorem Unsubscribe_invalid_subscription_id:
  assumes "ConnFromContext ctx = Some c2"
      and "subscriptions h s = None
           \<or> (\<exists>sub. subscriptions h s = Some sub \<and> \<not> Equal (conn sub) c2)"
  shows "Unsubscribe ctx s h = (Inl ErrInvalidSubscriptionID, h)
       \<and> subscriptions (snd (Unsubscribe ctx s h)) = subscriptions h"
  using assms by (auto simp: Unsubscribe_def)

text \<open>
  The theorem at work: subscription 7 belongs to connection 1; connection 2 asks to
  end it, and it stays, not cancelled.
\<close>

theorem Unsubscribe_invalid_subscription_id_witness:
  "ConnFromContext (Some 2) = Some 2
   \<and> subscriptions handler_7 7 = Some \<lparr>conn = 1, cancelled = False, wg = 1\<rparr>
   \<and> \<not> Equal 1 2
   \<and> Unsubscribe (Some 2) 7 handler_7 = (Inl ErrInvalidSubscriptionID, handler_7)
   \<and> subscriptions (snd (Unsubscribe (Some 2) 7 handler_7)) 7
       = Some \<lparr>conn = 1, cancelled = False, wg = 1\<rparr>"
proof -
  have c: "ConnFromContext (Some 2) = Some (2::nat)"
    by (simp add: ConnFromContext_def)
  have s: "subscriptions handler_7 7 = Some \<lparr>conn = 1, cancelled = False, wg = 1\<rparr>"
    by (simp add: handler_7_def)
  have e: "\<not> Equal 1 2"
    by (simp add: Equal_def)
  have o: "subscriptions handler_7 7 = None
           \<or> (\<exists>sub. subscriptions handler_7 7 = Some sub \<and> \<not> Equal (conn sub) 2)"
    using s e by simp
  show ?thesis
    using Unsubscribe_invalid_subscription_id[OF c o] c s e by simp
qed

section \<open>Events already sent\<close>

lemma emits_refl: "no_faults io \<Longrightarrow> emits io io i []"
  by (simp add: emits_def)

lemma emits_trans:
  "emits io io1 i es \<Longrightarrow> emits io1 io2 i es' \<Longrightarrow> emits io io2 i (es @ es')"
  by (simp add: emits_def)

lemma ctx_Done_no_faults:
  "no_faults io \<Longrightarrow>
     \<exists>io1. ctx_Done io = (False, io1) \<and> no_faults io1 \<and> written io1 = written io"
  by (cases "ctx_done io") (auto simp: ctx_Done_def no_faults_def)

lemma Write_no_faults:
  "no_faults io \<Longrightarrow>
     \<exists>io2. Write resp io = (None, io2) \<and> no_faults io2 \<and> written io2 = written io @ [resp]"
  by (cases "write_errs io") (auto simp: Write_def no_faults_def)

lemma sendEvent_emits:
  assumes "no_faults io" "well_formed e"
      and "m = None \<or> (\<exists>sent. m = Some sent \<and> sentEventOf e \<notin> Some ` sent)"
      and "m' = (case m of None \<Rightarrow> None
                 | Some sent \<Rightarrow> Some (SentEvent_policy_sent sent [e]))"
  shows "\<exists>io'. sendEvent io e m i = (None, io', m') \<and> emits io io' i [e]"
proof -
  obtain io1 where d: "ctx_Done io = (False, io1)" "no_faults io1" "written io1 = written io"
    using ctx_Done_no_faults[OF assms(1)] by blast
  obtain th ev where te: "TransactionHash e = Some th" "fe_Event e = Some ev"
    using assms(2) by (auto simp: well_formed_def)
  let ?r = "\<lparr>Version = ''2.0'', Method = ''starknet_subscriptionEvents'', subscription_id = i,
             result = Emitted \<lparr>em_Event = \<lparr>From = From ev, Keys = Keys ev, Data = Data ev\<rparr>,
                               em_BlockNumber = BlockNumber e, em_BlockHash = BlockHash e,
                               em_TransactionHash = TransactionHash e\<rparr>\<rparr>"
  obtain io2 where w: "Write ?r io1 = (None, io2)" "no_faults io2" "written io2 = written io1 @ [?r]"
    using Write_no_faults[OF d(2)] by blast
  have n: "notification i e = Some ?r"
    by (simp add: notification_def te)
  have e: "emits io io2 i [e]"
    using d w n by (simp add: emits_def event_notifications_def)
  have s: "sendEvent io e m i = (None, io2, m')"
    using d w te assms(3,4)
    by (auto simp: sendEvent_def sentEventOf_def sendResponse_def Let_def)
  show ?thesis
    using s e by blast
qed

lemma sendEvent_skips:
  assumes "no_faults io" "well_formed e" "sentEventOf e \<in> Some ` sent"
  shows "\<exists>io'. sendEvent io e (Some sent) i = (None, io', Some sent) \<and> emits io io' i []"
proof -
  obtain io1 where d: "ctx_Done io = (False, io1)" "no_faults io1" "written io1 = written io"
    using ctx_Done_no_faults[OF assms(1)] by blast
  obtain th where te: "TransactionHash e = Some th"
    using assms(2) by (auto simp: well_formed_def)
  have "emits io io1 i []"
    using d by (simp add: emits_def event_notifications_def)
  moreover have "sendEvent io e (Some sent) i = (None, io1, Some sent)"
    using d te assms(3) by (auto simp: sendEvent_def sentEventOf_def Let_def)
  ultimately show ?thesis
    by blast
qed

lemma sendEvent_policy:
  assumes "no_faults io" "well_formed e"
  shows "\<exists>io'. sendEvent io e (Some sent) i = (None, io', Some (SentEvent_policy_sent sent [e]))
           \<and> emits io io' i (SentEvent_policy_emits sent [e])"
proof (cases "sentEventOf e \<in> Some ` sent")
  case True
  then obtain k where k: "sentEventOf e = Some k" "k \<in> sent"
    by auto
  show ?thesis
    using sendEvent_skips[OF assms True, of i] k by simp
next
  case False
  obtain k where k: "sentEventOf e = Some k"
    using assms(2) by (auto simp: well_formed_def sentEventOf_def)
  then have nk: "k \<notin> sent"
    using False by auto
  have pe: "SentEvent_policy_emits sent [e] = [e]"
    using k nk by simp
  show ?thesis
    unfolding pe
    using sendEvent_emits[OF assms, of "Some sent" "Some (SentEvent_policy_sent sent [e])" i] False
    by simp
qed

lemma SentEvent_policy_emits_append:
  "SentEvent_policy_emits sent (xs @ ys)
     = SentEvent_policy_emits sent xs @ SentEvent_policy_emits (SentEvent_policy_sent sent xs) ys"
  by (induction xs arbitrary: sent) (auto split: option.splits)

lemma SentEvent_policy_sent_append:
  "SentEvent_policy_sent sent (xs @ ys) = SentEvent_policy_sent (SentEvent_policy_sent sent xs) ys"
  by (induction xs arbitrary: sent) (auto split: option.splits)

text \<open>
  The stream a map of either kind lets through, and the map it leaves: everything and
  nil without a map, the policy's choice with one.
\<close>

lemma sendEvents_emits:
  assumes "no_faults io" "\<forall>e\<in>set evs. well_formed e"
  shows "\<exists>io'. sendEvents io evs None i = (None, io', None) \<and> emits io io' i evs"
  using assms
proof (induction evs arbitrary: io)
  case Nil
  then show ?case by (simp add: emits_refl)
next
  case (Cons e evs)
  obtain io1 where s: "sendEvent io e None i = (None, io1, None)" "emits io io1 i [e]"
    using sendEvent_emits[of io e None None i] Cons.prems by auto
  have n1: "no_faults io1"
    using s(2) by (simp add: emits_def)
  obtain io2 where t: "sendEvents io1 evs None i = (None, io2, None)" "emits io1 io2 i evs"
    using Cons.IH[OF n1] Cons.prems by auto
  show ?case
    using s(1) t(1) emits_trans[OF s(2) t(2)] by simp
qed

lemma sendEvents_policy:
  assumes "no_faults io" "\<forall>e\<in>set evs. well_formed e"
  shows "\<exists>io'. sendEvents io evs (Some sent) i = (None, io', Some (SentEvent_policy_sent sent evs))
           \<and> emits io io' i (SentEvent_policy_emits sent evs)"
  using assms
proof (induction evs arbitrary: io sent)
  case Nil
  then show ?case by (simp add: emits_refl)
next
  case (Cons e evs)
  let ?s1 = "SentEvent_policy_sent sent [e]"
  obtain io1 where s: "sendEvent io e (Some sent) i = (None, io1, Some ?s1)"
      "emits io io1 i (SentEvent_policy_emits sent [e])"
    using sendEvent_policy[of io e sent i] Cons.prems by auto
  have n1: "no_faults io1"
    using s(2) by (simp add: emits_def)
  obtain io2 where t: "sendEvents io1 evs (Some ?s1) i = (None, io2, Some (SentEvent_policy_sent ?s1 evs))"
      "emits io1 io2 i (SentEvent_policy_emits ?s1 evs)"
    using Cons.IH[OF n1, of ?s1] Cons.prems by auto
  have a: "SentEvent_policy_emits sent (e # evs)
             = SentEvent_policy_emits sent [e] @ SentEvent_policy_emits ?s1 evs"
    using SentEvent_policy_emits_append[of sent "[e]" evs] by simp
  have b: "SentEvent_policy_sent sent (e # evs) = SentEvent_policy_sent ?s1 evs"
    using SentEvent_policy_sent_append[of sent "[e]" evs] by simp
  show ?case
    unfolding a b using s(1) t(1) emits_trans[OF s(2) t(2)] by simp
qed

lemma sendPages_emits:
  assumes "no_faults io" "\<forall>e\<in>set (pages_events pages). well_formed e"
  shows "\<exists>io'. sendPages io pages None i = (False, io', None)
           \<and> emits io io' i (pages_events pages)"
  using assms
proof (induction pages arbitrary: io)
  case EventsErr
  then show ?case by (simp add: emits_refl)
next
  case (LastPage evs)
  then show ?case
    using sendEvents_emits[of io evs i] by auto
next
  case (MorePages evs pages)
  obtain io1 where s: "sendEvents io evs None i = (None, io1, None)" "emits io io1 i evs"
    using sendEvents_emits[of io evs i] MorePages.prems by auto
  have n1: "no_faults io1"
    using s(2) by (simp add: emits_def)
  obtain io2 where t: "sendPages io1 pages None i = (False, io2, None)"
      "emits io1 io2 i (pages_events pages)"
    using MorePages.IH[OF n1] MorePages.prems by auto
  show ?case
    using s(1) t(1) emits_trans[OF s(2) t(2)] by simp
qed

lemma sendPages_policy:
  assumes "no_faults io" "\<forall>e\<in>set (pages_events pages). well_formed e"
  shows "\<exists>io'. sendPages io pages (Some sent) i
                 = (False, io', Some (SentEvent_policy_sent sent (pages_events pages)))
           \<and> emits io io' i (SentEvent_policy_emits sent (pages_events pages))"
  using assms
proof (induction pages arbitrary: io sent)
  case EventsErr
  then show ?case by (simp add: emits_refl)
next
  case (LastPage evs)
  then show ?case
    using sendEvents_policy[of io evs sent i] by auto
next
  case (MorePages evs pages)
  let ?s1 = "SentEvent_policy_sent sent evs"
  obtain io1 where s: "sendEvents io evs (Some sent) i = (None, io1, Some ?s1)"
      "emits io io1 i (SentEvent_policy_emits sent evs)"
    using sendEvents_policy[of io evs sent i] MorePages.prems by auto
  have n1: "no_faults io1"
    using s(2) by (simp add: emits_def)
  obtain io2 where t: "sendPages io1 pages (Some ?s1) i
                         = (False, io2, Some (SentEvent_policy_sent ?s1 (pages_events pages)))"
      "emits io1 io2 i (SentEvent_policy_emits ?s1 (pages_events pages))"
    using MorePages.IH[OF n1, of ?s1] MorePages.prems by auto
  show ?case
    using s(1) t(1) emits_trans[OF s(2) t(2)]
    by (simp add: SentEvent_policy_emits_append SentEvent_policy_sent_append)
qed

lemma processEvents_emits:
  assumes "no_faults io" "\<forall>e\<in>set (filter_events (bc fromAddr keys from to)). well_formed e"
  shows "\<exists>io'. processEvents bc io i from to fromAddr keys None = (False, io', None)
           \<and> emits io io' i (filter_events (bc fromAddr keys from to))"
proof (cases "bc fromAddr keys from to")
  case (Pages pages)
  then show ?thesis
    using sendPages_emits[of io pages i] assms by (simp add: processEvents_def)
qed (use assms in \<open>simp_all add: processEvents_def emits_refl\<close>)

lemma processEvents_policy:
  assumes "no_faults io" "\<forall>e\<in>set (filter_events (bc fromAddr keys from to)). well_formed e"
  shows "\<exists>io'. processEvents bc io i from to fromAddr keys (Some sent)
                 = (False, io',
                    Some (SentEvent_policy_sent sent (filter_events (bc fromAddr keys from to))))
           \<and> emits io io' i
               (SentEvent_policy_emits sent (filter_events (bc fromAddr keys from to)))"
proof (cases "bc fromAddr keys from to")
  case (Pages pages)
  then show ?thesis
    using sendPages_policy[of io pages sent i] assms by (simp add: processEvents_def)
qed (use assms in \<open>simp_all add: processEvents_def emits_refl\<close>)

lemma sendReorg_emits:
  assumes "no_faults io"
  shows "\<exists>io'. sendReorg io reorg i = (None, io') \<and> emits io io' i []"
proof -
  let ?r = "\<lparr>Version = ''2.0'', Method = ''starknet_subscriptionReorg'', subscription_id = i,
             result = Reorg \<lparr>re_StartBlockHash = StartBlockHash reorg,
                             re_StartBlockNum = StartBlockNum reorg,
                             re_EndBlockHash = EndBlockHash reorg,
                             re_EndBlockNum = EndBlockNum reorg\<rparr>\<rparr>"
  obtain io2 where w: "Write ?r io = (None, io2)" "no_faults io2" "written io2 = written io @ [?r]"
    using Write_no_faults[OF assms] by blast
  then show ?thesis
    by (simp add: sendReorg_def sendResponse_def emits_def event_notifications_def)
qed

lemma events_loop_policy:
  assumes "no_faults io"
      and "\<forall>e\<in>set (loop_events turns nextBlock fromAddr keys). well_formed e"
  shows "\<exists>io'. events_loop io turns nextBlock (Some sent) fromAddr keys i
                 = (io', Some (SentEvent_policy_sent sent (loop_events turns nextBlock fromAddr keys)))
           \<and> emits io io' i
               (SentEvent_policy_emits sent (loop_events turns nextBlock fromAddr keys))"
  using assms
proof (induction turns arbitrary: io nextBlock sent)
  case Nil
  then show ?case by (simp add: emits_refl)
next
  case (Cons turn turns)
  show ?case
  proof (cases turn)
    case ctx_Done_case
    then show ?thesis
      using Cons.prems by (simp add: emits_refl)
  next
    case (reorg_case reorg)
    obtain io1 where s: "sendReorg io reorg i = (None, io1)" "emits io io1 i []"
      using sendReorg_emits[OF Cons.prems(1)] by blast
    have n1: "no_faults io1"
      using s(2) by (simp add: emits_def)
    obtain io2 where t:
        "events_loop io1 turns (StartBlockNum reorg) (Some sent) fromAddr keys i
           = (io2, Some (SentEvent_policy_sent sent
                (loop_events turns (StartBlockNum reorg) fromAddr keys)))"
        "emits io1 io2 i
           (SentEvent_policy_emits sent (loop_events turns (StartBlockNum reorg) fromAddr keys))"
      using Cons.IH[OF n1, of "StartBlockNum reorg" sent] Cons.prems(2) reorg_case by auto
    show ?thesis
      using reorg_case s(1) t(1) emits_trans[OF s(2) t(2)] by simp
  next
    case (head_case head bc)
    let ?evs = "filter_events (bc fromAddr keys nextBlock (hdr_Number head))"
    let ?s1 = "SentEvent_policy_sent sent ?evs"
    obtain io1 where s:
        "processEvents bc io i nextBlock (hdr_Number head) fromAddr keys (Some sent)
           = (False, io1, Some ?s1)"
        "emits io io1 i (SentEvent_policy_emits sent ?evs)"
      using processEvents_policy[of io bc fromAddr keys nextBlock "hdr_Number head" i sent]
        Cons.prems head_case by auto
    have n1: "no_faults io1"
      using s(2) by (simp add: emits_def)
    obtain io2 where t:
        "events_loop io1 turns (hdr_Number head + 1) (Some ?s1) fromAddr keys i
           = (io2, Some (SentEvent_policy_sent ?s1
                (loop_events turns (hdr_Number head + 1) fromAddr keys)))"
        "emits io1 io2 i
           (SentEvent_policy_emits ?s1 (loop_events turns (hdr_Number head + 1) fromAddr keys))"
      using Cons.IH[OF n1, of "hdr_Number head + 1" ?s1] Cons.prems(2) head_case by auto
    show ?thesis
      using head_case s(1) t(1) emits_trans[OF s(2) t(2)]
      by (simp add: SentEvent_policy_emits_append SentEvent_policy_sent_append)
  next
    case (pending_case bc)
    let ?evs = "filter_events (bc fromAddr keys nextBlock nextBlock)"
    let ?s1 = "SentEvent_policy_sent sent ?evs"
    obtain io1 where s:
        "processEvents bc io i nextBlock nextBlock fromAddr keys (Some sent)
           = (False, io1, Some ?s1)"
        "emits io io1 i (SentEvent_policy_emits sent ?evs)"
      using processEvents_policy[of io bc fromAddr keys nextBlock nextBlock i sent]
        Cons.prems pending_case by auto
    have n1: "no_faults io1"
      using s(2) by (simp add: emits_def)
    obtain io2 where t:
        "events_loop io1 turns nextBlock (Some ?s1) fromAddr keys i
           = (io2, Some (SentEvent_policy_sent ?s1 (loop_events turns nextBlock fromAddr keys)))"
        "emits io1 io2 i
           (SentEvent_policy_emits ?s1 (loop_events turns nextBlock fromAddr keys))"
      using Cons.IH[OF n1, of nextBlock ?s1] Cons.prems(2) pending_case by auto
    show ?thesis
      using pending_case s(1) t(1) emits_trans[OF s(2) t(2)]
      by (simp add: SentEvent_policy_emits_append SentEvent_policy_sent_append)
  qed
qed

lemma SentEvent_policy_skips_recorded:
  "k \<in> sent \<Longrightarrow>
     filter (\<lambda>e. sentEventOf e = Some k) (SentEvent_policy_emits sent evs) = []
     \<and> k \<in> SentEvent_policy_sent sent evs"
  by (induction evs arbitrary: sent) (auto split: option.splits)

lemma SentEvent_policy_first_pending:
  assumes "k \<notin> sent"
      and "find (\<lambda>e. sentEventOf e = Some k) evs = Some p"
      and "BlockHash p = None"
  shows "filter (\<lambda>e. sentEventOf e = Some k) (SentEvent_policy_emits sent evs) = [p]
         \<and> k \<in> SentEvent_policy_sent sent evs"
  using assms
proof (induction evs arbitrary: sent)
  case Nil
  then show ?case by simp
next
  case (Cons e evs)
  show ?case
  proof (cases "sentEventOf e = Some k")
    case True
    then have "e = p"
      using Cons.prems(2) by simp
    then show ?thesis
      using True Cons.prems SentEvent_policy_skips_recorded[of k "insert k sent" evs] by simp
  next
    case False
    then have f: "find (\<lambda>e. sentEventOf e = Some k) evs = Some p"
      using Cons.prems(2) by simp
    show ?thesis
    proof (cases "sentEventOf e")
      case None
      then show ?thesis
        using Cons.IH[OF Cons.prems(1) f Cons.prems(3)] by simp
    next
      case (Some k')
      then have ne: "k' \<noteq> k"
        using False by simp
      have i1: "k \<notin> insert k' sent"
        using ne Cons.prems(1) by simp
      have i2: "k \<notin> sent - {k'}"
        using Cons.prems(1) by simp
      show ?thesis
        using Some ne Cons.IH[OF Cons.prems(1) f Cons.prems(3)]
          Cons.IH[OF i1 f Cons.prems(3)] Cons.IH[OF i2 f Cons.prems(3)]
        by simp
    qed
  qed
qed

text \<open>
  Claim C5. Take the task of an events subscription with every event built in full, a
  context that is not cancelled and a connection that accepts every write. The event
  notifications it writes are those of the first replay followed by those the SentEvent
  policy lets through of the events given to the loop: skip when the pair is present,
  record the pair when the block hash is nil, remove it when a non-nil block hash
  arrives for a pair not recorded. For a pair \<open>k\<close> that the first replay does not hold
  and whose first event \<open>p\<close> in the loop comes from a pending block (nil block hash),
  the events emitted for \<open>k\<close> are \<open>p\<close> alone, whatever arrives later for \<open>k\<close>,
  confirmed or pending: exactly one notification, and \<open>k\<close> stays recorded.
\<close>

theorem SentEvent_idempotence:
  assumes "no_faults io"
      and "\<forall>e\<in>set (filter_events
                    (bc fromAddr keys (hdr_Number requestedHeader) (hdr_Number headHeader))).
             well_formed e \<and> sentEventOf e \<noteq> Some k"
      and "\<forall>e\<in>set (loop_events turns (hdr_Number headHeader + 1) fromAddr keys). well_formed e"
      and "find (\<lambda>e. sentEventOf e = Some k)
             (loop_events turns (hdr_Number headHeader + 1) fromAddr keys) = Some p"
      and "BlockHash p = None"
  shows "map Some (event_notifications
             (SubscribeEvents_task bc io turns requestedHeader headHeader fromAddr keys i))
           = map Some (event_notifications io)
             @ map (notification i)
                 (SubscribeEvents_emits bc turns requestedHeader headHeader fromAddr keys)
       \<and> filter (\<lambda>e. sentEventOf e = Some k)
           (SubscribeEvents_emits bc turns requestedHeader headHeader fromAddr keys) = [p]
       \<and> k \<in> SentEvent_policy_sent {}
               (loop_events turns (hdr_Number headHeader + 1) fromAddr keys)"
proof -
  let ?H = "filter_events (bc fromAddr keys (hdr_Number requestedHeader) (hdr_Number headHeader))"
  let ?D = "loop_events turns (hdr_Number headHeader + 1) fromAddr keys"
  have wfH: "\<forall>e\<in>set ?H. well_formed e"
    using assms(2) by blast
  obtain io1 where s:
      "processEvents bc io i (hdr_Number requestedHeader) (hdr_Number headHeader) fromAddr keys None
         = (False, io1, None)"
      "emits io io1 i ?H"
    using processEvents_emits[where io = io and bc = bc and fromAddr = fromAddr and keys = keys
        and ?from = "hdr_Number requestedHeader" and to = "hdr_Number headHeader" and i = i]
      assms(1) wfH
    by blast
  have n1: "no_faults io1"
    using s(2) by (simp add: emits_def)
  obtain io2 where t:
      "events_loop io1 turns (hdr_Number headHeader + 1) (Some {}) fromAddr keys i
         = (io2, Some (SentEvent_policy_sent {} ?D))"
      "emits io1 io2 i (SentEvent_policy_emits {} ?D)"
    using events_loop_policy[OF n1 assms(3)] by blast
  have task: "SubscribeEvents_task bc io turns requestedHeader headHeader fromAddr keys i = io2"
    using s(1) t(1) by (simp add: SubscribeEvents_task_def)
  have written: "emits io io2 i (?H @ SentEvent_policy_emits {} ?D)"
    by (rule emits_trans[OF s(2) t(2)])
  have noH: "filter (\<lambda>e. sentEventOf e = Some k) ?H = []"
    using assms(2) by (simp add: filter_empty_conv)
  have one: "filter (\<lambda>e. sentEventOf e = Some k) (SentEvent_policy_emits {} ?D) = [p]
             \<and> k \<in> SentEvent_policy_sent {} ?D"
    using SentEvent_policy_first_pending[OF _ assms(4,5), of "{}"] by simp
  show ?thesis
    using task written noH one by (simp add: emits_def SubscribeEvents_emits_def)
qed

text \<open>
  The theorem at work: a task subscribed at head 9 is given the event from the pending
  block 10 twice and then from the confirmed block 10. One notification is written, the
  pending one.
\<close>

theorem SentEvent_idempotence_witness:
  "no_faults io_0
   \<and> well_formed ev_pending
   \<and> well_formed ev_confirmed
   \<and> BlockHash ev_pending = None
   \<and> BlockHash ev_confirmed \<noteq> None
   \<and> sentEventOf ev_confirmed = sentEventOf ev_pending
   \<and> filter_events (chain_pending None [] 9 9) = []
   \<and> loop_events turns_0 (9 + 1) None [] = [ev_pending, ev_pending, ev_confirmed]
   \<and> map Some (event_notifications
         (SubscribeEvents_task chain_pending io_0 turns_0
            \<lparr>hdr_Number = 9, hdr_Hash = 98\<rparr> \<lparr>hdr_Number = 9, hdr_Hash = 98\<rparr> None [] 5))
       = [notification 5 ev_pending]"
proof -
  let ?h = "\<lparr>hdr_Number = 9, hdr_Hash = 98\<rparr>"
  have a: "no_faults io_0"
    by (simp add: no_faults_def io_0_def)
  have w: "well_formed ev_pending \<and> well_formed ev_confirmed"
    by (simp add: well_formed_def ev_pending_def ev_confirmed_def)
  have h: "filter_events (chain_pending None [] 9 9) = []"
    by (simp add: chain_pending_def)
  have d: "loop_events turns_0 (9 + 1) None [] = [ev_pending, ev_pending, ev_confirmed]"
    by (simp add: turns_0_def chain_pending_def chain_confirmed_def)
  have k: "sentEventOf ev_pending = Some (SentEvent 77 0)
           \<and> sentEventOf ev_confirmed = Some (SentEvent 77 0)"
    by (simp add: sentEventOf_def ev_pending_def ev_confirmed_def)
  have hb: "BlockHash ev_pending = None \<and> BlockHash ev_confirmed \<noteq> None"
    by (simp add: ev_pending_def ev_confirmed_def)
  have b: "\<forall>e\<in>set (filter_events (chain_pending None [] (hdr_Number ?h) (hdr_Number ?h))).
             well_formed e \<and> sentEventOf e \<noteq> Some (SentEvent 77 0)"
    using h by simp
  have c: "\<forall>e\<in>set (loop_events turns_0 (hdr_Number ?h + 1) None []). well_formed e"
    using d w by simp
  have f: "find (\<lambda>e. sentEventOf e = Some (SentEvent 77 0))
             (loop_events turns_0 (hdr_Number ?h + 1) None []) = Some ev_pending"
    using d k by simp
  have p: "SubscribeEvents_emits chain_pending turns_0 ?h ?h None [] = [ev_pending]"
    using h d k hb by (simp add: SubscribeEvents_emits_def)
  show ?thesis
    using SentEvent_idempotence[where io = io_0 and bc = chain_pending and fromAddr = None
        and keys = "[]" and requestedHeader = ?h and headHeader = ?h and turns = turns_0
        and k = "SentEvent 77 0" and p = ev_pending and i = 5]
      a b c f w h d k hb
    unfolding p by (simp add: io_0_def event_notifications_def)
qed

section \<open>Waiting for an unknown transaction\<close>

lemma txNotFoundLoop_returns:
  "\<exists>r. txNotFoundLoop status m (replicate n ticker_C @ timeout_C # rest) rpcErr = Some r"
  by (induction n arbitrary: m rpcErr) (auto split: sum.splits)

lemma txNotFoundLoop_not_found_iff:
  "txNotFoundLoop status m (replicate n ticker_C @ timeout_C # rest) ErrTxnHashNotFound
     = Some (Inl ErrTxnHashNotFound)
   \<longleftrightarrow> (\<forall>k<n. status (m + k) = Inl ErrTxnHashNotFound)"
proof (induction n arbitrary: m)
  case 0
  then show ?case by simp
next
  case (Suc n)
  have split: "(\<forall>k<Suc n. status (m + k) = Inl ErrTxnHashNotFound)
                 \<longleftrightarrow> status m = Inl ErrTxnHashNotFound
                     \<and> (\<forall>k<n. status (Suc m + k) = Inl ErrTxnHashNotFound)"
    by (auto simp: less_Suc_eq_0_disj)
  show ?case
  proof (cases "status m")
    case (Inl e)
    then show ?thesis
      using Suc.IH[of "Suc m"] split by auto
  next
    case (Inr st)
    then show ?thesis
      using split by simp
  qed
qed

text \<open>
  Claim C6. A call of \<open>SubscribeTransactionStatus\<close> that carries a connection looks the
  status up once at once and once more at every tick; let the timers deliver \<open>n\<close> ticks
  and then the timeout. The call returns, and it returns the \<open>not found\<close> error with the
  handler as it was (no id generated, no subscription stored) exactly when all \<open>n + 1\<close>
  lookups of the wait window answer \<open>transaction hash not found\<close>.
\<close>

theorem SubscribeTransactionStatus_not_found:
  assumes "ConnFromContext ctx = Some w"
  shows "(\<exists>r. SubscribeTransactionStatus TransactionStatus
                 (replicate n ticker_C @ timeout_C # rest) ctx txHash h = Some r)
       \<and> (SubscribeTransactionStatus TransactionStatus
             (replicate n ticker_C @ timeout_C # rest) ctx txHash h
               = Some (Inl ErrTxnHashNotFound, h)
            \<longleftrightarrow> (\<forall>k\<le>n. TransactionStatus k txHash = Inl ErrTxnHashNotFound))"
proof -
  let ?chans = "replicate n ticker_C @ timeout_C # rest"
  let ?status = "\<lambda>n. TransactionStatus n txHash"
  obtain r where r: "txNotFoundLoop ?status 1 ?chans ErrTxnHashNotFound = Some r"
    using txNotFoundLoop_returns by blast
  have loop: "r = Inl ErrTxnHashNotFound \<longleftrightarrow> (\<forall>k<n. ?status (1 + k) = Inl ErrTxnHashNotFound)"
    using txNotFoundLoop_not_found_iff[of ?status 1 n rest] r by simp
  have all: "(\<forall>k\<le>n. ?status k = Inl ErrTxnHashNotFound)
               \<longleftrightarrow> ?status 0 = Inl ErrTxnHashNotFound
                   \<and> (\<forall>k<n. ?status (1 + k) = Inl ErrTxnHashNotFound)"
  proof
    assume a: "\<forall>k\<le>n. ?status k = Inl ErrTxnHashNotFound"
    then show "?status 0 = Inl ErrTxnHashNotFound
                 \<and> (\<forall>k<n. ?status (1 + k) = Inl ErrTxnHashNotFound)"
      by simp
  next
    assume a: "?status 0 = Inl ErrTxnHashNotFound
                 \<and> (\<forall>k<n. ?status (1 + k) = Inl ErrTxnHashNotFound)"
    show "\<forall>k\<le>n. ?status k = Inl ErrTxnHashNotFound"
    proof (intro allI impI)
      fix k assume "k \<le> n"
      then show "?status k = Inl ErrTxnHashNotFound"
        using a by (cases k) auto
    qed
  qed
  show ?thesis
  proof (cases "TransactionStatus 0 txHash")
    case (Inl e)
    show ?thesis
    proof (cases "e = ErrTxnHashNotFound")
      case True
      then show ?thesis
        using assms Inl r loop all
        by (cases r) (auto simp: SubscribeTransactionStatus_def split: prod.splits)
    next
      case False
      then show ?thesis
        using assms Inl all by (auto simp: SubscribeTransactionStatus_def)
    qed
  next
    case (Inr st)
    then show ?thesis
      using assms all by (auto simp: SubscribeTransactionStatus_def split: prod.splits)
  qed
qed

text \<open>
  The theorem at work: a feeder that never knows the transaction, three ticks, then the
  timeout.
\<close>

theorem SubscribeTransactionStatus_not_found_witness:
  "ConnFromContext (Some 1) = Some 1
   \<and> status_never 0 77 = Inl ErrTxnHashNotFound
   \<and> status_never 1 77 = Inl ErrTxnHashNotFound
   \<and> status_never 2 77 = Inl ErrTxnHashNotFound
   \<and> status_never 3 77 = Inl ErrTxnHashNotFound
   \<and> SubscribeTransactionStatus status_never [ticker_C, ticker_C, ticker_C, timeout_C] (Some 1) 77
       handler_0 = Some (Inl ErrTxnHashNotFound, handler_0)"
proof -
  have c: "ConnFromContext (Some 1) = Some (1::nat)"
    by (simp add: ConnFromContext_def)
  have n: "\<forall>k\<le>3. status_never k 77 = Inl ErrTxnHashNotFound"
    by (simp add: status_never_def)
  have l: "replicate 3 ticker_C @ timeout_C # [] = [ticker_C, ticker_C, ticker_C, timeout_C]"
    by (simp add: numeral_3_eq_3)
  show ?thesis
    using SubscribeTransactionStatus_not_found[OF c, of status_never 3 "[]" 77 handler_0] c n
    unfolding l by (simp add: status_never_def)
qed

section \<open>Middleware\<close>

lemma MetricsReporterMiddleware_count:
  "trr_count (the_reporter (snd (MetricsReporterMiddleware clock testReporter ctx req next s)))
     = trr_count (the_reporter (snd (next ctx req s))) + 1"
  by (simp add: MetricsReporterMiddleware_def testReporter_def Let_def
        split: prod.splits option.splits)

lemma MetricsReporterMiddleware_method:
  "trr_method (the_reporter (snd (MetricsReporterMiddleware clock testReporter ctx req next s)))
     = req_Method req"
  by (simp add: MetricsReporterMiddleware_def testReporter_def Let_def
        split: prod.splits option.splits)

lemma MetricsReporterMiddleware_result:
  "fst (MetricsReporterMiddleware now reporter ctx req next s) = fst (next ctx req s)"
  by (simp add: MetricsReporterMiddleware_def Let_def split: prod.splits option.splits)

text \<open>
  Claim C7. Whatever the next handler is, a call through the metrics middleware leaves
  the reporter's request count one above what the next handler left, with the method of
  the request recorded, and returns what the next handler returned. Hence on a server
  without earlier middleware whose dispatcher does not touch the reporter, two chained
  metrics middlewares on one reporter take its count from 0 to exactly 2 in one request.
\<close>

theorem MetricsReporterMiddleware_reports_once:
  "trr_count (the_reporter (snd (MetricsReporterMiddleware clock testReporter ctx req next s)))
     = trr_count (the_reporter (snd (next ctx req s))) + 1
   \<and> trr_method (the_reporter (snd (MetricsReporterMiddleware clock testReporter ctx req next s)))
     = req_Method req
   \<and> fst (MetricsReporterMiddleware clock testReporter ctx req next s) = fst (next ctx req s)
   \<and> ((\<forall>c r t. the_reporter (snd (handleRequest srv c r t)) = the_reporter t)
        \<and> handler srv = None \<and> trr_count (the_reporter s) = 0
      \<longrightarrow> (\<exists>g. handler (WithRequestMiddleware (MetricsReporterMiddleware clock testReporter)
                    (WithRequestMiddleware (MetricsReporterMiddleware clock testReporter) srv))
                  = Some g
             \<and> trr_count (the_reporter (snd (g ctx req s))) = 2
             \<and> fst (g ctx req s) = fst (handleRequest srv ctx req s)))"
  by (simp add: MetricsReporterMiddleware_count MetricsReporterMiddleware_method
        MetricsReporterMiddleware_result WithRequestMiddleware_def)

text \<open>
  The theorem at work: the server, the request and the fresh reporter of the chained
  middleware test.
\<close>

theorem MetricsReporterMiddleware_reports_once_witness:
  "(\<forall>c r t. the_reporter (snd (handleRequest test_server c r t)) = the_reporter t)
   \<and> handler test_server = None
   \<and> trr_count (the_reporter test_state_0) = 0
   \<and> (\<exists>g. handler (WithRequestMiddleware (MetricsReporterMiddleware clock testReporter)
              (WithRequestMiddleware (MetricsReporterMiddleware clock testReporter) test_server))
            = Some g
          \<and> trr_count (the_reporter (snd (g () test_request test_state_0))) = 2)"
proof -
  have a: "\<forall>c r t. the_reporter (snd (handleRequest test_server c r t)) = the_reporter t"
    by (simp add: test_server_def)
  have b: "handler test_server = None"
    by (simp add: test_server_def)
  have c: "trr_count (the_reporter test_state_0) = 0"
    by (simp add: test_state_0_def)
  show ?thesis
    using MetricsReporterMiddleware_reports_once[of "()" test_request "handleRequest test_server"
        test_state_0 test_server] a b c
    by blast
qed

text \<open>
  Claim C8. Registering \<open>M1\<close> and then \<open>M2\<close> leaves as handler of record \<open>M2\<close> called
  with a next handler that is \<open>M1\<close> called with the handler there was before, which on a
  server without earlier middleware is the terminal dispatcher: \<open>M2(M1(terminal))\<close>.
\<close>

theorem WithRequestMiddleware_LIFO:
  "handler (WithRequestMiddleware M2 (WithRequestMiddleware M1 s))
     = Some (\<lambda>ctx req. M2 ctx req (\<lambda>ctx req. M1 ctx req
               (case handler s of None \<Rightarrow> handleRequest s | Some g \<Rightarrow> g)))
   \<and> handler (WithRequestMiddleware M2 (WithRequestMiddleware M1 (s\<lparr>handler := None\<rparr>)))
     = Some (\<lambda>ctx req. M2 ctx req (\<lambda>ctx req. M1 ctx req (handleRequest s)))"
  by (simp add: WithRequestMiddleware_def)

text \<open>
  The theorem at work: on one request the names come in the order \<open>M2\<close>, \<open>M1\<close>,
  \<open>terminal\<close>.
\<close>

theorem WithRequestMiddleware_LIFO_witness:
  "\<exists>g. handler (WithRequestMiddleware (tagging ''M2'')
              (WithRequestMiddleware (tagging ''M1'') tag_server)) = Some g
       \<and> snd (g () test_request []) = [''M2'', ''M1'', ''terminal'']"
  using WithRequestMiddleware_LIFO[of "tagging ''M2''" "tagging ''M1''" tag_server]
  by (simp add: tagging_def tag_server_def)

section \<open>HTTP adapter\<close>

text \<open>
  Claim C9. A GET to path \<open>/\<close> writes status 200 and a GET to any other path 404, any
  method other than GET and POST 405, all three without touching the body, the server
  core or the request counter. A POST hands the core a reader that gives the first
  10 MiB (\<open>MaxRequestBodySize\<close>) of the body and no more; the adapter then sets the
  content type, writes status 500 when the core returned an error, and writes the
  response bytes whenever the core returned some, error or not.
\<close>

theorem ServeHTTP_surface:
  "(http_Method req = ''GET'' \<and> URL_Path req = ''/''
      \<longrightarrow> ServeHTTP core req h = ([WriteHeader 200], h))
   \<and> (http_Method req = ''GET'' \<and> URL_Path req \<noteq> ''/''
      \<longrightarrow> ServeHTTP core req h = ([WriteHeader 404], h))
   \<and> (http_Method req \<noteq> ''GET'' \<and> http_Method req \<noteq> ''POST''
      \<longrightarrow> ServeHTTP core req h = ([WriteHeader 405], h))
   \<and> (http_Method req = ''POST'' \<longrightarrow>
        (\<exists>body resp err core'.
           body = MaxBytesReader (Body req) MaxRequestBodySize
           \<and> MaxRequestBodySize = 10485760
           \<and> bytes body = take 10485760 (Body req)
           \<and> length (bytes body) \<le> 10485760
           \<and> too_large body = (10485760 < length (Body req))
           \<and> core body (rpc h) = ((resp, err), core')
           \<and> snd (ServeHTTP core req h) = \<lparr>requests = Suc (requests h), rpc = core'\<rparr>
           \<and> fst (ServeHTTP core req h) =
               [Header_Set ''Content-Type'' ''application/json'']
               @ (case err of None \<Rightarrow> [] | Some e \<Rightarrow> [WriteHeader 500])
               @ (case resp of None \<Rightarrow> [] | Some r \<Rightarrow> [Write_bytes r])))"
proof -
  have post: "http_Method req = ''POST'' \<Longrightarrow>
        (\<exists>body resp err core'.
           body = MaxBytesReader (Body req) MaxRequestBodySize
           \<and> MaxRequestBodySize = 10485760
           \<and> bytes body = take 10485760 (Body req)
           \<and> length (bytes body) \<le> 10485760
           \<and> too_large body = (10485760 < length (Body req))
           \<and> core body (rpc h) = ((resp, err), core')
           \<and> snd (ServeHTTP core req h) = \<lparr>requests = Suc (requests h), rpc = core'\<rparr>
           \<and> fst (ServeHTTP core req h) =
               [Header_Set ''Content-Type'' ''application/json'']
               @ (case err of None \<Rightarrow> [] | Some e \<Rightarrow> [WriteHeader 500])
               @ (case resp of None \<Rightarrow> [] | Some r \<Rightarrow> [Write_bytes r]))"
  proof -
    assume p: "http_Method req = ''POST''"
    let ?body = "MaxBytesReader (Body req) MaxRequestBodySize"
    obtain resp err core' where c: "core ?body (rpc h) = ((resp, err), core')"
      by (metis surj_pair)
    have m: "MaxRequestBodySize = 10485760"
      by (simp add: MaxRequestBodySize_def)
    have s: "snd (ServeHTTP core req h) = \<lparr>requests = Suc (requests h), rpc = core'\<rparr>"
      using p c by (simp add: ServeHTTP_def Let_def split: option.splits)
    have f: "fst (ServeHTTP core req h) =
               [Header_Set ''Content-Type'' ''application/json'']
               @ (case err of None \<Rightarrow> [] | Some e \<Rightarrow> [WriteHeader 500])
               @ (case resp of None \<Rightarrow> [] | Some r \<Rightarrow> [Write_bytes r])"
      using p c by (simp add: ServeHTTP_def Let_def split: option.splits)
    show ?thesis
      using c m s f by (simp add: MaxBytesReader_def)
  qed
  show ?thesis
    using post by (simp add: ServeHTTP_def)
qed

text \<open>
  The theorem at work: a GET to \<open>/\<close>, a GET to \<open>/health\<close>, a PUT, and a POST whose body
  is one byte over the limit, on which the core fails and still answers.
\<close>

theorem ServeHTTP_surface_witness:
  "ServeHTTP core_0 \<lparr>http_Method = ''GET'', URL_Path = ''/'', Body = ''x''\<rparr>
       \<lparr>requests = 0, rpc = 0\<rparr> = ([WriteHeader 200], \<lparr>requests = 0, rpc = 0\<rparr>)
   \<and> ServeHTTP core_0 \<lparr>http_Method = ''GET'', URL_Path = ''/health'', Body = ''x''\<rparr>
       \<lparr>requests = 0, rpc = 0\<rparr> = ([WriteHeader 404], \<lparr>requests = 0, rpc = 0\<rparr>)
   \<and> ServeHTTP core_0 \<lparr>http_Method = ''PUT'', URL_Path = ''/'', Body = ''x''\<rparr>
       \<lparr>requests = 0, rpc = 0\<rparr> = ([WriteHeader 405], \<lparr>requests = 0, rpc = 0\<rparr>)
   \<and> ServeHTTP core_0
         \<lparr>http_Method = ''POST'', URL_Path = ''/'', Body = replicate 10485761 CHR ''x''\<rparr>
         \<lparr>requests = 0, rpc = 0\<rparr>
       = ([Header_Set ''Content-Type'' ''application/json'', WriteHeader 500, Write_bytes ''error''],
          \<lparr>requests = 1, rpc = 1\<rparr>)"
proof -
  let ?h = "\<lparr>requests = 0, rpc = 0::nat\<rparr>"
  let ?big = "\<lparr>http_Method = ''POST'', URL_Path = ''/'', Body = replicate 10485761 CHR ''x''\<rparr>"
  have c: "core_0 (MaxBytesReader (Body ?big) MaxRequestBodySize) (rpc ?h)
             = ((Some ''error'', Some ''http: request body too large''), 1)"
    by (simp add: core_0_def MaxBytesReader_def MaxRequestBodySize_def)
  have p: "fst (ServeHTTP core_0 ?big ?h)
             = [Header_Set ''Content-Type'' ''application/json'', WriteHeader 500, Write_bytes ''error'']
           \<and> snd (ServeHTTP core_0 ?big ?h) = \<lparr>requests = 1, rpc = 1\<rparr>"
    using ServeHTTP_surface[of ?big core_0 ?h] c by auto
  show ?thesis
    using ServeHTTP_surface[of "\<lparr>http_Method = ''GET'', URL_Path = ''/'', Body = ''x''\<rparr>" core_0 ?h]
      ServeHTTP_surface[of "\<lparr>http_Method = ''GET'', URL_Path = ''/health'', Body = ''x''\<rparr>" core_0 ?h]
      ServeHTTP_surface[of "\<lparr>http_Method = ''PUT'', URL_Path = ''/'', Body = ''x''\<rparr>" core_0 ?h]
      p
    by (simp add: prod_eq_iff)
qed

section \<open>Block ids of subscriptions\<close>

text \<open>
  Claim C10. \<open>IsPending\<close> is false for every subscription block id, also for the one an
  \<open>UnmarshalJSON\<close> leaves behind. \<open>UnmarshalJSON\<close> succeeds only when the input is the
  exact string \<open>"latest"\<close> or decodes to an object that has a \<open>block_hash\<close> or a
  \<open>block_number\<close> field. On any other input it returns an error: the decoder's own when
  the input does not decode to an object, and \<open>cannot unmarshal block id\<close> when the
  object has neither field.
\<close>

theorem UnmarshalJSON_never_pending:
  "\<not> IsPending b
   \<and> \<not> IsPending (snd (UnmarshalJSON js b data))
   \<and> (fst (UnmarshalJSON js b data) = None \<longrightarrow>
        data = quoted ''latest''
        \<or> (\<exists>obj. Unmarshal_map js data = Inr obj
              \<and> (obj ''block_hash'' \<noteq> None \<or> obj ''block_number'' \<noteq> None)))
   \<and> (data \<noteq> quoted ''latest'' \<and> Unmarshal_map js data = Inr obj
        \<and> obj ''block_hash'' = None \<and> obj ''block_number'' = None
      \<longrightarrow> UnmarshalJSON js b data = (Some ''cannot unmarshal block id'', b))
   \<and> (data \<noteq> quoted ''latest'' \<and> Unmarshal_map js data = Inl err
      \<longrightarrow> UnmarshalJSON js b data = (Some err, b))"
  by (auto simp: IsPending_def UnmarshalJSON_def split: sum.splits option.splits prod.splits)

text \<open>
  The theorem at work: the string \<open>"latest"\<close> and an object with a block number are
  accepted, an empty object and a string \<open>"pending"\<close> are refused.
\<close>

theorem UnmarshalJSON_never_pending_witness:
  "UnmarshalJSON js_0 blockID_0 (quoted ''latest'') = (None, blockID_0\<lparr>Latest := True\<rparr>)
   \<and> UnmarshalJSON js_0 blockID_0 ''{n}'' = (None, blockID_0\<lparr>Number := 5\<rparr>)
   \<and> Unmarshal_map js_0 ''{}'' = Inr Map.empty
   \<and> UnmarshalJSON js_0 blockID_0 ''{}'' = (Some ''cannot unmarshal block id'', blockID_0)
   \<and> Unmarshal_map js_0 (quoted ''pending'') = Inl ''json: cannot unmarshal''
   \<and> UnmarshalJSON js_0 blockID_0 (quoted ''pending'') = (Some ''json: cannot unmarshal'', blockID_0)
   \<and> \<not> IsPending (snd (UnmarshalJSON js_0 blockID_0 (quoted ''pending'')))"
proof -
  have l: "UnmarshalJSON js_0 blockID_0 (quoted ''latest'') = (None, blockID_0\<lparr>Latest := True\<rparr>)"
    by (simp add: UnmarshalJSON_def)
  have n: "UnmarshalJSON js_0 blockID_0 ''{n}'' = (None, blockID_0\<lparr>Number := 5\<rparr>)"
    by (simp add: UnmarshalJSON_def js_0_def quoted_def)
  have e: "''{}'' \<noteq> quoted ''latest'' \<and> Unmarshal_map js_0 ''{}'' = Inr Map.empty"
    by (simp add: js_0_def quoted_def)
  have p: "quoted ''pending'' \<noteq> quoted ''latest''
           \<and> Unmarshal_map js_0 (quoted ''pending'') = Inl ''json: cannot unmarshal''"
    by (simp add: js_0_def quoted_def)
  show ?thesis
    using UnmarshalJSON_never_pending[of blockID_0 js_0 "''{}''" Map.empty]
      UnmarshalJSON_never_pending[of blockID_0 js_0 "quoted ''pending''" _ "''json: cannot unmarshal''"]
      l n e p
    by simp
qed

end
